theory Spec2Isabelle
  imports Main "HOL-Library.Word"
begin

section \<open>Values, errors and the state of the store\<close>

text \<open>
  The development embeds the class \<^verbatim>\<open>LocalStore\<close> of
  \<^verbatim>\<open>src/modules/local-store/repository/local-store.ts\<close>, the store that the
  application module wires in, and the places where its sibling \<^verbatim>\<open>DataFileRepo\<close>
  (\<^verbatim>\<open>modules/data-file/repository/repository.ts\<close>) differs from it.

  A payload has the TypeScript type \<^verbatim>\<open>any\<close>. The store only ever asks one thing of it,
  \<^verbatim>\<open>Buffer.isBuffer\<close>, so a payload is either a \<open>Buffer\<close> of bytes or a plain value,
  and a plain value is what the text codecs can produce: a JSON value. Numbers are
  integers here (floating point is not modelled), and an object is the list of its
  own properties. The order of that list is the order in which properties were added;
  it carries no meaning of its own (JavaScript enumerates index-like keys first, and
  two objects are deep-equal whatever the order).
\<close>

type_synonym byte = "8 word"

type_synonym path = "string list"

datatype json =
    JNull
  | JBool bool
  | JNum int
  | JStr string
  | JArr "json list"
  | JObj "(string \<times> json) list"

datatype payload = Buffer "byte list" | Plain json

text \<open>\<^verbatim>\<open>null\<close>, the value that \<^verbatim>\<open>readRecord\<close> and \<^verbatim>\<open>getRecord\<close> return for "not there".\<close>

abbreviation null :: payload where
  "null \<equiv> Plain JNull"

text \<open>
  Every \<^verbatim>\<open>throw\<close> of the source is a value of \<open>error\<close>. An error of the file system
  carries what Node puts on it: the call, the code (\<^verbatim>\<open>err.code\<close>) and the path.
  The two \<^verbatim>\<open>Expected ...\<close> errors of \<^verbatim>\<open>writeRecord\<close> and the \<^verbatim>\<open>not found\<close> error
  carry the record id and the collection name of their message.
  The last two constructors are no errors of the program: with \<open>IllTypedIndex\<close> and
  \<open>PrototypeReplaced\<close> the model stops where the program would go on with a value
  that the types of the model do not hold (see \<open>asIndex\<close> and \<open>bufferSet\<close>).
\<close>

datatype errno = ENOENT | EEXIST | EACCES | EISDIR

datatype syscall = Mkdir | ReadFile | WriteFile | Unlink | Rm

datatype error =
    FsError syscall errno path
  | ExpectedBuffer string string
  | ExpectedObject string string
  | RecordNotFound string string
  | SerializeIndexFailed string
  | DumpError
  | ParseError
  | TypeError
  | RangeError
  | IllTypedIndex
  | PrototypeReplaced

fun err_code :: "error \<Rightarrow> errno option" where
  "err_code (FsError call code p) = Some code"
| "err_code e = None"

text \<open>The payload mismatch of \<^verbatim>\<open>writeRecord\<close>: the spec's Validation error.\<close>

fun is_validation :: "error \<Rightarrow> bool" where
  "is_validation (ExpectedBuffer r c) = True"
| "is_validation (ExpectedObject r c) = True"
| "is_validation e = False"

record IndexRecord =
  id' :: string
  isBinary :: bool

text \<open>
  The state is what the methods read and write: the file system under the working
  directory (directories, files as byte sequences, and the set \<open>denied\<close> of paths on
  which the operating system refuses every call with \<^verbatim>\<open>EACCES\<close>; it stands for
  every failure other than "does not exist"), the two maps of the class, and the
  record ids that \<^verbatim>\<open>logger.warn\<close> was called for.

  The methods are \<^verbatim>\<open>async\<close>; the model runs each call to its end before the next one
  starts, which is the order the per-collection mutex imposes on the mutating calls.
\<close>

record store =
  dirs :: "path set"
  files :: "path \<rightharpoonup> byte list"
  denied :: "path set"
  indexCache :: "string \<rightharpoonup> IndexRecord list"
  mutexes :: "string set"
  warned :: "string list"

record config =
  baseDir :: string
  storageType :: string

text \<open>
  The libraries the store calls are parameters: \<^verbatim>\<open>JSON.stringify\<close>, \<^verbatim>\<open>JSON.parse\<close>,
  \<^verbatim>\<open>yaml.dump\<close> and \<^verbatim>\<open>yaml.load\<close> (\<open>None\<close> when the call throws), and the two
  coercions ECMAScript applies when a value is stored into a typed array cell or
  into the \<^verbatim>\<open>length\<close> of an array (\<open>None\<close> is its \<^verbatim>\<open>RangeError\<close>).
\<close>

record runtime =
  JSON_stringify :: "json \<Rightarrow> string option"
  JSON_parse :: "string \<Rightarrow> json option"
  yaml_dump :: "json \<Rightarrow> string option"
  yaml_load :: "string \<Rightarrow> json option"
  ToUint8 :: "json \<Rightarrow> byte"
  ToArrayLength :: "json \<Rightarrow> nat option"

section \<open>The file system calls\<close>

text \<open>
  A path is the list of its components below the working directory; collection
  names and record ids are single components (\<^verbatim>\<open>path.join\<close> would normalise
  separators and dot segments inside them, which is not modelled).
  Text is written and read as UTF-8; a \<open>string\<close> is taken as the bytes of its
  encoding.
\<close>

definition utf8_encode :: "string \<Rightarrow> byte list" where
  "utf8_encode s = map (\<lambda>c. word_of_nat (of_char c)) s"

definition utf8_decode :: "byte list \<Rightarrow> string" where
  "utf8_decode bs = map (\<lambda>w. char_of (unat w)) bs"

definition dir_exists :: "store \<Rightarrow> path \<Rightarrow> bool" where
  "dir_exists s p \<longleftrightarrow> p = [] \<or> p \<in> dirs s"

text \<open>\<^verbatim>\<open>fs.mkdir(p)\<close>, not recursive.\<close>

definition fs_mkdir :: "path \<Rightarrow> store \<Rightarrow> (error + unit) \<times> store" where
  "fs_mkdir p s =
    (if p \<in> denied s then (Inl (FsError Mkdir EACCES p), s)
     else if \<not> dir_exists s (butlast p) then (Inl (FsError Mkdir ENOENT p), s)
     else if dir_exists s p \<or> files s p \<noteq> None then (Inl (FsError Mkdir EEXIST p), s)
     else (Inr (), s\<lparr>dirs := insert p (dirs s)\<rparr>))"

text \<open>\<^verbatim>\<open>fs.mkdir(p, { recursive: true })\<close>: creates the missing ancestors, and an existing
  directory is no error.\<close>

definition ancestors :: "path \<Rightarrow> path list" where
  "ancestors p = map (\<lambda>n. take n p) [1..<Suc (length p)]"

definition fs_mkdir_recursive :: "path \<Rightarrow> store \<Rightarrow> (error + unit) \<times> store" where
  "fs_mkdir_recursive p s =
    (if p \<in> denied s then (Inl (FsError Mkdir EACCES p), s)
     else if list_ex (\<lambda>q. files s q \<noteq> None) (ancestors p)
       then (Inl (FsError Mkdir EEXIST p), s)
     else (Inr (), s\<lparr>dirs := dirs s \<union> set (ancestors p)\<rparr>))"

definition fs_readFile :: "path \<Rightarrow> store \<Rightarrow> error + byte list" where
  "fs_readFile p s =
    (if p \<in> denied s then Inl (FsError ReadFile EACCES p)
     else if dir_exists s p then Inl (FsError ReadFile EISDIR p)
     else case files s p of
            None \<Rightarrow> Inl (FsError ReadFile ENOENT p)
          | Some bs \<Rightarrow> Inr bs)"

definition fs_writeFile :: "path \<Rightarrow> byte list \<Rightarrow> store \<Rightarrow> (error + unit) \<times> store" where
  "fs_writeFile p bs s =
    (if p \<in> denied s then (Inl (FsError WriteFile EACCES p), s)
     else if dir_exists s p then (Inl (FsError WriteFile EISDIR p), s)
     else if \<not> dir_exists s (butlast p) then (Inl (FsError WriteFile ENOENT p), s)
     else (Inr (), s\<lparr>files := (files s)(p \<mapsto> bs)\<rparr>))"

definition fs_unlink :: "path \<Rightarrow> store \<Rightarrow> (error + unit) \<times> store" where
  "fs_unlink p s =
    (if p \<in> denied s then (Inl (FsError Unlink EACCES p), s)
     else if dir_exists s p then (Inl (FsError Unlink EISDIR p), s)
     else case files s p of
            None \<Rightarrow> (Inl (FsError Unlink ENOENT p), s)
          | Some bs \<Rightarrow> (Inr (), s\<lparr>files := (files s)(p := None)\<rparr>))"

text \<open>\<^verbatim>\<open>fs.rm(p, { recursive: true, force: true })\<close>: removes \<open>p\<close> and everything below
  it; nothing there is no error.\<close>

definition below :: "path \<Rightarrow> path \<Rightarrow> bool" where
  "below p q \<longleftrightarrow> take (length p) q = p"

definition fs_rm :: "path \<Rightarrow> store \<Rightarrow> (error + unit) \<times> store" where
  "fs_rm p s =
    (if p \<in> denied s then (Inl (FsError Rm EACCES p), s)
     else (Inr (), s\<lparr>dirs := {q \<in> dirs s. \<not> below p q},
                     files := (\<lambda>q. if below p q then None else files s q)\<rparr>))"

section \<open>Paths and codecs of the store\<close>

definition getFileExtension :: "config \<Rightarrow> string" where
  "getFileExtension cfg = (if storageType cfg = ''yaml'' then ''yaml'' else ''json'')"

definition getCollectionPath :: "config \<Rightarrow> string \<Rightarrow> path" where
  "getCollectionPath cfg collectionName = [baseDir cfg, collectionName]"

definition getIndexFilePath :: "config \<Rightarrow> string \<Rightarrow> path" where
  "getIndexFilePath cfg collectionName =
     getCollectionPath cfg collectionName @ [''index.'' @ getFileExtension cfg]"

definition getRecordFilePath :: "config \<Rightarrow> string \<Rightarrow> string \<Rightarrow> bool \<Rightarrow> path" where
  "getRecordFilePath cfg collectionName recordId binary =
    (if binary then getCollectionPath cfg collectionName @ [recordId @ ''.bin'']
     else getCollectionPath cfg collectionName @ [recordId @ ''.'' @ getFileExtension cfg])"

text \<open>
  The expression
  \<^verbatim>\<open>this.storageType === 'yaml' ? yaml.dump(data) : JSON.stringify(data, null, 2)\<close>
  of \<^verbatim>\<open>writeTextFile\<close> and \<^verbatim>\<open>updateIndex\<close>, and its counterpart with
  \<^verbatim>\<open>yaml.load\<close> and \<^verbatim>\<open>JSON.parse\<close> in \<^verbatim>\<open>readRecord\<close> and \<^verbatim>\<open>getIndex\<close>.
\<close>

definition dumpText :: "runtime \<Rightarrow> config \<Rightarrow> json \<Rightarrow> string option" where
  "dumpText rt cfg data =
    (if storageType cfg = ''yaml'' then yaml_dump rt data else JSON_stringify rt data)"

definition parseText :: "runtime \<Rightarrow> config \<Rightarrow> string \<Rightarrow> json option" where
  "parseText rt cfg fileContent =
    (if storageType cfg = ''yaml'' then yaml_load rt fileContent else JSON_parse rt fileContent)"

text \<open>An index as the value handed to the codec, and the way back. The source casts
  what the codec parsed to \<^verbatim>\<open>IndexRecord[]\<close> without a check; a parsed value that is
  not a list of \<^verbatim>\<open>{id, isBinary}\<close> objects stops the model with \<open>IllTypedIndex\<close>.\<close>

definition indexJson :: "IndexRecord list \<Rightarrow> json" where
  "indexJson index =
     JArr (map (\<lambda>e. JObj [(''id'', JStr (id' e)), (''isBinary'', JBool (isBinary e))]) index)"

fun asIndexRecord :: "json \<Rightarrow> IndexRecord option" where
  "asIndexRecord (JObj kvs) =
    (case (map_of kvs ''id'', map_of kvs ''isBinary'') of
       (Some (JStr i), Some (JBool b)) \<Rightarrow> Some \<lparr>id' = i, isBinary = b\<rparr>
     | _ \<Rightarrow> None)"
| "asIndexRecord v = None"

fun asIndex :: "json \<Rightarrow> IndexRecord list option" where
  "asIndex (JArr vs) = those (map asIndexRecord vs)"
| "asIndex v = None"

text \<open>JavaScript's falsy values, for \<^verbatim>\<open>x || []\<close>, \<^verbatim>\<open>!record\<close> and \<^verbatim>\<open>limit ? a : b\<close>.\<close>

fun falsy_json :: "json \<Rightarrow> bool" where
  "falsy_json JNull = True"
| "falsy_json (JBool b) = (\<not> b)"
| "falsy_json (JNum n) = (n = 0)"
| "falsy_json (JStr s) = (s = [])"
| "falsy_json v = False"

fun falsy :: "payload \<Rightarrow> bool" where
  "falsy (Buffer bs) = False"
| "falsy (Plain v) = falsy_json v"

section \<open>The private methods\<close>

definition ensureDirExists :: "path \<Rightarrow> store \<Rightarrow> (error + unit) \<times> store" where
  "ensureDirExists dirPath s = fs_mkdir dirPath s"

definition writeTextFile ::
  "runtime \<Rightarrow> config \<Rightarrow> path \<Rightarrow> json \<Rightarrow> store \<Rightarrow> (error + unit) \<times> store" where
  "writeTextFile rt cfg filePath data s =
    (case dumpText rt cfg data of
       None \<Rightarrow> (Inl DumpError, s)
     | Some fileContent \<Rightarrow> fs_writeFile filePath (utf8_encode fileContent) s)"

definition writeBinaryFile :: "path \<Rightarrow> byte list \<Rightarrow> store \<Rightarrow> (error + unit) \<times> store" where
  "writeBinaryFile filePath data s = fs_writeFile filePath data s"

definition writeRecord ::
  "runtime \<Rightarrow> config \<Rightarrow> string \<Rightarrow> string \<Rightarrow> payload \<Rightarrow> bool \<Rightarrow> store
     \<Rightarrow> (error + unit) \<times> store" where
  "writeRecord rt cfg collectionName recordId data binary s =
    (let filePath = getRecordFilePath cfg collectionName recordId binary in
     if binary then
       (case data of
          Buffer bs \<Rightarrow> writeBinaryFile filePath bs s
        | Plain v \<Rightarrow> (Inl (ExpectedBuffer recordId collectionName), s))
     else
       (case data of
          Buffer bs \<Rightarrow> (Inl (ExpectedObject recordId collectionName), s)
        | Plain v \<Rightarrow> writeTextFile rt cfg filePath v s))"

definition readRecord ::
  "runtime \<Rightarrow> config \<Rightarrow> string \<Rightarrow> string \<Rightarrow> bool \<Rightarrow> store \<Rightarrow> error + payload" where
  "readRecord rt cfg collectionName recordId binary s =
    (let filePath = getRecordFilePath cfg collectionName recordId binary;
         attempt =
           (if binary then
              (case fs_readFile filePath s of
                 Inl err \<Rightarrow> Inl err
               | Inr bs \<Rightarrow> Inr (Buffer bs))
            else
              (case fs_readFile filePath s of
                 Inl err \<Rightarrow> Inl err
               | Inr bs \<Rightarrow>
                   (case parseText rt cfg (utf8_decode bs) of
                      None \<Rightarrow> Inl ParseError
                    | Some v \<Rightarrow> Inr (Plain v))))
     in case attempt of
          Inl err \<Rightarrow> (if err_code err = Some ENOENT then Inr null else Inl err)
        | Inr r \<Rightarrow> Inr r)"

definition getMutex :: "string \<Rightarrow> store \<Rightarrow> store" where
  "getMutex collectionName s =
    (if collectionName \<notin> mutexes s then s\<lparr>mutexes := insert collectionName (mutexes s)\<rparr>
     else s)"

definition getIndex ::
  "runtime \<Rightarrow> config \<Rightarrow> string \<Rightarrow> store \<Rightarrow> (error + IndexRecord list) \<times> store" where
  "getIndex rt cfg collectionName s =
    (case indexCache s collectionName of
       Some index \<Rightarrow> (Inr index, s)
     | None \<Rightarrow>
        (let indexPath = getIndexFilePath cfg collectionName;
             attempt =
               (case fs_readFile indexPath s of
                  Inl err \<Rightarrow> Inl err
                | Inr bs \<Rightarrow>
                    (case parseText rt cfg (utf8_decode bs) of
                       None \<Rightarrow> Inl ParseError
                     | Some v \<Rightarrow>
                         if falsy_json v then Inr []
                         else (case asIndex v of
                                 None \<Rightarrow> Inl IllTypedIndex
                               | Some index \<Rightarrow> Inr index)));
             indexData =
               (case attempt of
                  Inl err \<Rightarrow> (if err_code err \<noteq> Some ENOENT then Inl err else Inr [])
                | Inr index \<Rightarrow> Inr index)
         in case indexData of
              Inl err \<Rightarrow> (Inl err, s)
            | Inr index \<Rightarrow>
                (Inr index, s\<lparr>indexCache := (indexCache s)(collectionName \<mapsto> index)\<rparr>)))"

definition updateIndex ::
  "runtime \<Rightarrow> config \<Rightarrow> string \<Rightarrow> IndexRecord list \<Rightarrow> store \<Rightarrow> (error + unit) \<times> store" where
  "updateIndex rt cfg collectionName newIndex s =
    (let s1 = s\<lparr>indexCache := (indexCache s)(collectionName \<mapsto> newIndex)\<rparr>;
         indexPath = getIndexFilePath cfg collectionName
     in case dumpText rt cfg (indexJson newIndex) of
          None \<Rightarrow>
            (Inl (SerializeIndexFailed collectionName),
             s1\<lparr>indexCache := (indexCache s1)(collectionName := None)\<rparr>)
        | Some indexContent \<Rightarrow>
            (case fs_writeFile indexPath (utf8_encode indexContent) s1 of
               (Inl err, s2) \<Rightarrow>
                 (Inl err, s2\<lparr>indexCache := (indexCache s2)(collectionName := None)\<rparr>)
             | (Inr u, s2) \<Rightarrow> (Inr (), s2)))"

section \<open>\<^verbatim>\<open>Object.assign\<close>\<close>

text \<open>
  \<^verbatim>\<open>updateRecord\<close> calls \<^verbatim>\<open>Object.assign(data, newData)\<close> and goes on with \<^verbatim>\<open>data\<close>.
  The call stores every own enumerable property of \<^verbatim>\<open>newData\<close> into \<^verbatim>\<open>data\<close>; what
  that does depends on the kind of object \<^verbatim>\<open>data\<close> is, and the object stays of its
  kind. \<open>Object_assign\<close> gives the value of \<^verbatim>\<open>data\<close> after the call, or the error
  the call throws.
\<close>

text \<open>\<^verbatim>\<open>Number.prototype.toString\<close> on a natural number, for the keys of indexed
  properties and for \<^verbatim>\<open>Date.now().toString()\<close>.\<close>

definition digit_char :: "nat \<Rightarrow> char" where
  "digit_char d = ''0123456789'' ! (d mod 10)"

function dec_string :: "nat \<Rightarrow> string" where
  "dec_string n = (if n < 10 then [digit_char n] else dec_string (n div 10) @ [digit_char (n mod 10)])"
  by pat_completeness auto
termination
  by (relation "measure id") auto

definition is_digit :: "char \<Rightarrow> bool" where
  "is_digit c \<longleftrightarrow> 48 \<le> (of_char c :: nat) \<and> (of_char c :: nat) \<le> 57"

definition dec_value :: "string \<Rightarrow> nat" where
  "dec_value s = foldl (\<lambda>n c. 10 * n + (of_char c - 48)) 0 s"

text \<open>A property key that is an array index: a decimal numeral without a leading zero.\<close>

definition arrayIndex :: "string \<Rightarrow> nat option" where
  "arrayIndex k =
    (if k \<noteq> [] \<and> list_all is_digit k \<and> (k = ''0'' \<or> hd k \<noteq> CHR ''0'')
     then Some (dec_value k) else None)"

definition indexed :: "json list \<Rightarrow> (string \<times> json) list" where
  "indexed vs = zip (map dec_string [0..<length vs]) vs"

text \<open>The own enumerable properties of the source of the assignment.\<close>

fun ownProperties :: "payload \<Rightarrow> (string \<times> json) list" where
  "ownProperties (Buffer bs) = indexed (map (\<lambda>b. JNum (uint b)) bs)"
| "ownProperties (Plain (JStr s)) = indexed (map (\<lambda>c. JStr [c]) s)"
| "ownProperties (Plain (JArr vs)) = indexed vs"
| "ownProperties (Plain (JObj kvs)) = kvs"
| "ownProperties (Plain v) = []"

fun fold_sum :: "('a \<Rightarrow> 'b \<Rightarrow> error + 'a) \<Rightarrow> 'a \<Rightarrow> 'b list \<Rightarrow> error + 'a" where
  "fold_sum f a [] = Inr a"
| "fold_sum f a (x # xs) = (case f a x of Inl err \<Rightarrow> Inl err | Inr a' \<Rightarrow> fold_sum f a' xs)"

text \<open>An ordinary object: the property is overwritten where it is, or added at the
  end. The key \<^verbatim>\<open>__proto__\<close>, when the object has no own property of that name, goes
  to the inherited setter and creates no property.\<close>

fun setProperty :: "(string \<times> json) list \<Rightarrow> string \<Rightarrow> json \<Rightarrow> (string \<times> json) list" where
  "setProperty [] k v = [(k, v)]"
| "setProperty ((k', v') # kvs) k v =
    (if k' = k then (k, v) # kvs else (k', v') # setProperty kvs k v)"

definition ordinarySet :: "(string \<times> json) list \<Rightarrow> string \<times> json \<Rightarrow> (string \<times> json) list" where
  "ordinarySet kvs kv =
    (if fst kv = ''__proto__'' \<and> map_of kvs (fst kv) = None then kvs
     else setProperty kvs (fst kv) (snd kv))"

text \<open>An array: an index stores the element (a hole left before it reads as
  \<^verbatim>\<open>null\<close> for the codecs), \<^verbatim>\<open>length\<close> cuts or extends, any other key is a property
  the codecs do not see.\<close>

definition arraySet :: "runtime \<Rightarrow> json list \<Rightarrow> string \<times> json \<Rightarrow> error + json list" where
  "arraySet rt vs kv =
    (case arrayIndex (fst kv) of
       Some i \<Rightarrow>
         (if i < length vs then Inr (vs[i := snd kv])
          else if i < 2 ^ 32 - 1 then Inr (vs @ replicate (i - length vs) JNull @ [snd kv])
          else Inr vs)
     | None \<Rightarrow>
         (if fst kv = ''length'' then
            (case ToArrayLength rt (snd kv) of
               None \<Rightarrow> Inl RangeError
             | Some n \<Rightarrow> Inr (take n vs @ replicate (n - length vs) JNull))
          else Inr vs))"

text \<open>A \<^verbatim>\<open>Buffer\<close>: an index inside the buffer stores the coerced value, an index
  outside is ignored, the getter-only properties of its prototypes cannot be
  assigned, any other key does not touch the bytes. One key is special: an own
  property \<^verbatim>\<open>__proto__\<close> of the source (a parsed JSON text can have one) goes to the
  inherited setter, and an object or \<^verbatim>\<open>null\<close> as its value replaces the prototype, after
  which \<^verbatim>\<open>Buffer.isBuffer\<close> no longer holds of the object. A payload is a \<^verbatim>\<open>Buffer\<close> or
  a JSON value in this model, so the model stops there.\<close>

fun replaces_prototype :: "json \<Rightarrow> bool" where
  "replaces_prototype JNull = True"
| "replaces_prototype (JArr vs) = True"
| "replaces_prototype (JObj kvs) = True"
| "replaces_prototype v = False"

definition bufferSet :: "runtime \<Rightarrow> byte list \<Rightarrow> string \<times> json \<Rightarrow> error + byte list" where
  "bufferSet rt bs kv =
    (case arrayIndex (fst kv) of
       Some i \<Rightarrow> Inr (if i < length bs then bs[i := ToUint8 rt (snd kv)] else bs)
     | None \<Rightarrow>
         (if fst kv = ''__proto__'' then
            (if replaces_prototype (snd kv) then Inl PrototypeReplaced else Inr bs)
          else if fst kv \<in> set [''length'', ''byteLength'', ''byteOffset'', ''buffer'', ''parent'', ''offset'']
          then Inl TypeError else Inr bs))"

text \<open>A string is wrapped for the call and the wrapper is dropped: the string is
  unchanged, but its characters and its length cannot be assigned (the length being
  that of the model's string, its bytes).\<close>

definition stringSet :: "string \<Rightarrow> string \<times> json \<Rightarrow> bool" where
  "stringSet s kv =
    (case arrayIndex (fst kv) of
       Some i \<Rightarrow> length s \<le> i
     | None \<Rightarrow> fst kv \<noteq> ''length'')"

fun Object_assign :: "runtime \<Rightarrow> payload \<Rightarrow> payload \<Rightarrow> error + payload" where
  "Object_assign rt (Plain JNull) source = Inl TypeError"
| "Object_assign rt (Plain (JBool b)) source = Inr (Plain (JBool b))"
| "Object_assign rt (Plain (JNum n)) source = Inr (Plain (JNum n))"
| "Object_assign rt (Plain (JStr s)) source =
    (if list_all (stringSet s) (ownProperties source) then Inr (Plain (JStr s)) else Inl TypeError)"
| "Object_assign rt (Plain (JArr vs)) source =
    (case fold_sum (arraySet rt) vs (ownProperties source) of
       Inl err \<Rightarrow> Inl err
     | Inr vs' \<Rightarrow> Inr (Plain (JArr vs')))"
| "Object_assign rt (Plain (JObj kvs)) source =
     Inr (Plain (JObj (foldl ordinarySet kvs (ownProperties source))))"
| "Object_assign rt (Buffer bs) source =
    (case fold_sum (bufferSet rt) bs (ownProperties source) of
       Inl err \<Rightarrow> Inl err
     | Inr bs' \<Rightarrow> Inr (Buffer bs'))"

section \<open>The public methods of \<^verbatim>\<open>LocalStore\<close>\<close>

text \<open>
  \<^verbatim>\<open>mutex.runExclusive\<close> runs its body; \<^verbatim>\<open>getMutex\<close> leaves the mutex in the map.
  An array is shared by reference: the \<^verbatim>\<open>index\<close> that \<^verbatim>\<open>getIndex\<close> returns is the
  array in the cache, so \<^verbatim>\<open>index.push\<close> and \<^verbatim>\<open>entry.isBinary = ...\<close> change the cache
  at once; the model writes these updates out.
\<close>

definition createCollection ::
  "runtime \<Rightarrow> config \<Rightarrow> string \<Rightarrow> store \<Rightarrow> (error + unit) \<times> store" where
  "createCollection rt cfg collectionName s =
    (let collectionPath = getCollectionPath cfg collectionName in
     case ensureDirExists collectionPath s of
       (Inl err, s1) \<Rightarrow> (Inl err, s1)
     | (Inr u, s1) \<Rightarrow> updateIndex rt cfg collectionName [] s1)"

definition deleteCollection :: "config \<Rightarrow> string \<Rightarrow> store \<Rightarrow> (error + unit) \<times> store" where
  "deleteCollection cfg collectionName s =
    (let collectionPath = getCollectionPath cfg collectionName;
         s0 = getMutex collectionName s
     in case fs_rm collectionPath s0 of
          (Inl err, s1) \<Rightarrow> (Inl err, s1)
        | (Inr u, s1) \<Rightarrow>
            (Inr (), s1\<lparr>mutexes := mutexes s1 - {collectionName},
                        indexCache := (indexCache s1)(collectionName := None)\<rparr>))"

text \<open>\<^verbatim>\<open>insertRecord\<close>; \<open>recordId\<close> is what \<^verbatim>\<open>randomUUID()\<close> returns in this call.\<close>

definition insertRecord ::
  "runtime \<Rightarrow> config \<Rightarrow> string \<Rightarrow> payload \<Rightarrow> bool \<Rightarrow> string \<Rightarrow> store
     \<Rightarrow> (error + string) \<times> store" where
  "insertRecord rt cfg collectionName record binary recordId s =
    (let s0 = getMutex collectionName s in
     case getIndex rt cfg collectionName s0 of
       (Inl err, s1) \<Rightarrow> (Inl err, s1)
     | (Inr index, s1) \<Rightarrow>
         (case writeRecord rt cfg collectionName recordId record binary s1 of
            (Inl err, s2) \<Rightarrow> (Inl err, s2)
          | (Inr u, s2) \<Rightarrow>
              (let index' = index @ [\<lparr>id' = recordId, isBinary = binary\<rparr>];
                   s3 = s2\<lparr>indexCache := (indexCache s2)(collectionName \<mapsto> index')\<rparr>
               in case updateIndex rt cfg collectionName index' s3 of
                    (Inl err, s4) \<Rightarrow> (Inl err, s4)
                  | (Inr u, s4) \<Rightarrow> (Inr recordId, s4))))"

definition getRecord ::
  "runtime \<Rightarrow> config \<Rightarrow> string \<Rightarrow> string \<Rightarrow> store \<Rightarrow> (error + payload) \<times> store" where
  "getRecord rt cfg collectionName recordId s =
    (case getIndex rt cfg collectionName s of
       (Inl err, s1) \<Rightarrow> (Inl err, s1)
     | (Inr index, s1) \<Rightarrow>
         (case find (\<lambda>item. id' item = recordId) index of
            None \<Rightarrow> (Inr null, s1\<lparr>warned := warned s1 @ [recordId]\<rparr>)
          | Some entry \<Rightarrow>
              (readRecord rt cfg collectionName recordId (isBinary entry) s1, s1)))"

text \<open>The loop of \<^verbatim>\<open>getRecords\<close>. \<^verbatim>\<open>index[i]\<close> with a negative \<open>i\<close> is \<^verbatim>\<open>undefined\<close>, and
  taking \<^verbatim>\<open>id\<close> and \<^verbatim>\<open>isBinary\<close> out of it throws.\<close>

function getRecords_loop ::
  "runtime \<Rightarrow> config \<Rightarrow> string \<Rightarrow> IndexRecord list \<Rightarrow> int \<Rightarrow> int \<Rightarrow> payload list \<Rightarrow> store
     \<Rightarrow> (error + payload list) \<times> store" where
  "getRecords_loop rt cfg collectionName index end' i records s =
    (if i < min (int (length index)) end' then
       (if i < 0 then (Inl TypeError, s)
        else
          (let entry = index ! nat i in
           case readRecord rt cfg collectionName (id' entry) (isBinary entry) s of
             Inl err \<Rightarrow> (Inl err, s)
           | Inr r \<Rightarrow>
               getRecords_loop rt cfg collectionName index end' (i + 1) (records @ [r])
                 (if falsy r then s\<lparr>warned := warned s @ [id' entry]\<rparr> else s)))
     else (Inr records, s))"
  by pat_completeness auto
termination
  by (relation "measure (\<lambda>(rt, cfg, c, index, end', i, records, s).
        nat (min (int (length index)) end' - i))") auto

text \<open>\<^verbatim>\<open>limit\<close> and \<^verbatim>\<open>skip\<close> are optional numbers, integers here.\<close>

definition getRecords ::
  "runtime \<Rightarrow> config \<Rightarrow> string \<Rightarrow> int option \<Rightarrow> int option \<Rightarrow> store
     \<Rightarrow> (error + payload list) \<times> store" where
  "getRecords rt cfg collectionName limit skip s =
    (case getIndex rt cfg collectionName s of
       (Inl err, s1) \<Rightarrow> (Inl err, s1)
     | (Inr index, s1) \<Rightarrow>
         (let start = (case skip of None \<Rightarrow> 0 | Some k \<Rightarrow> if k \<noteq> 0 then k else 0);
              end' = (case limit of
                        None \<Rightarrow> int (length index)
                      | Some l \<Rightarrow> if l \<noteq> 0 then start + l else int (length index))
          in getRecords_loop rt cfg collectionName index end' start [] s1))"

text \<open>\<^verbatim>\<open>entry.isBinary = isBinary\<close> on the entry that \<^verbatim>\<open>index.find\<close> returned, the first
  one with the id.\<close>

fun assignIsBinary :: "string \<Rightarrow> bool \<Rightarrow> IndexRecord list \<Rightarrow> IndexRecord list" where
  "assignIsBinary recordId binary [] = []"
| "assignIsBinary recordId binary (e # es) =
    (if id' e = recordId then e\<lparr>isBinary := binary\<rparr> # es
     else e # assignIsBinary recordId binary es)"

definition updateRecord ::
  "runtime \<Rightarrow> config \<Rightarrow> string \<Rightarrow> string \<Rightarrow> payload \<Rightarrow> bool \<Rightarrow> store
     \<Rightarrow> (error + unit) \<times> store" where
  "updateRecord rt cfg collectionName recordId newData binary s =
    (let s0 = getMutex collectionName s in
     case getIndex rt cfg collectionName s0 of
       (Inl err, s1) \<Rightarrow> (Inl err, s1)
     | (Inr index, s1) \<Rightarrow>
         (case find (\<lambda>item. id' item = recordId) index of
            None \<Rightarrow> (Inl (RecordNotFound recordId collectionName), s1)
          | Some entry \<Rightarrow>
              (case getRecord rt cfg collectionName recordId s1 of
                 (Inl err, s2) \<Rightarrow> (Inl err, s2)
               | (Inr data, s2) \<Rightarrow>
                   (case Object_assign rt data newData of
                      Inl err \<Rightarrow> (Inl err, s2)
                    | Inr data' \<Rightarrow>
                        (case writeRecord rt cfg collectionName recordId data' binary s2 of
                           (Inl err, s3) \<Rightarrow> (Inl err, s3)
                         | (Inr u, s3) \<Rightarrow>
                             (if isBinary entry \<noteq> binary then
                                (let index' = assignIsBinary recordId binary index;
                                     s4 = s3\<lparr>indexCache :=
                                             (indexCache s3)(collectionName \<mapsto> index')\<rparr>
                                 in updateIndex rt cfg collectionName index' s4)
                              else (Inr (), s3)))))))"

definition deleteRecord ::
  "runtime \<Rightarrow> config \<Rightarrow> string \<Rightarrow> string \<Rightarrow> store \<Rightarrow> (error + unit) \<times> store" where
  "deleteRecord rt cfg collectionName recordId s =
    (let s0 = getMutex collectionName s in
     case getIndex rt cfg collectionName s0 of
       (Inl err, s1) \<Rightarrow> (Inl err, s1)
     | (Inr index, s1) \<Rightarrow>
         (case find (\<lambda>item. id' item = recordId) index of
            None \<Rightarrow> (Inl (RecordNotFound recordId collectionName), s1)
          | Some entry \<Rightarrow>
              (let updatedIndex = filter (\<lambda>item. id' item \<noteq> recordId) index;
                   filePath = getRecordFilePath cfg collectionName recordId (isBinary entry)
               in case fs_unlink filePath s1 of
                    (Inl err, s2) \<Rightarrow>
                      (if err_code err \<noteq> Some ENOENT then (Inl err, s2)
                       else updateIndex rt cfg collectionName updatedIndex s2)
                  | (Inr u, s2) \<Rightarrow> updateIndex rt cfg collectionName updatedIndex s2)))"

section \<open>Where \<^verbatim>\<open>DataFileRepo\<close> differs\<close>

text \<open>
  The sibling class has the same methods line by line, apart from three places:
  \<^verbatim>\<open>ensureDirExists\<close> creates the directory recursively and lets \<^verbatim>\<open>EEXIST\<close> pass,
  \<^verbatim>\<open>insertRecord\<close> takes \<^verbatim>\<open>Date.now().toString()\<close> as the id (\<open>now\<close> is the clock's
  reading in milliseconds in this call), and \<^verbatim>\<open>updateRecord\<close> writes \<^verbatim>\<open>newData\<close> itself.
\<close>

definition DataFileRepo_ensureDirExists :: "path \<Rightarrow> store \<Rightarrow> (error + unit) \<times> store" where
  "DataFileRepo_ensureDirExists dirPath s =
    (case fs_mkdir_recursive dirPath s of
       (Inl err, s1) \<Rightarrow> (if err_code err \<noteq> Some EEXIST then (Inl err, s1) else (Inr (), s1))
     | (Inr u, s1) \<Rightarrow> (Inr (), s1))"

definition DataFileRepo_createCollection ::
  "runtime \<Rightarrow> config \<Rightarrow> string \<Rightarrow> store \<Rightarrow> (error + unit) \<times> store" where
  "DataFileRepo_createCollection rt cfg collectionName s =
    (let collectionPath = getCollectionPath cfg collectionName in
     case DataFileRepo_ensureDirExists collectionPath s of
       (Inl err, s1) \<Rightarrow> (Inl err, s1)
     | (Inr u, s1) \<Rightarrow> updateIndex rt cfg collectionName [] s1)"

definition DataFileRepo_insertRecord ::
  "runtime \<Rightarrow> config \<Rightarrow> string \<Rightarrow> payload \<Rightarrow> bool \<Rightarrow> nat \<Rightarrow> store
     \<Rightarrow> (error + string) \<times> store" where
  "DataFileRepo_insertRecord rt cfg collectionName record binary now s =
    (let s0 = getMutex collectionName s in
     case getIndex rt cfg collectionName s0 of
       (Inl err, s1) \<Rightarrow> (Inl err, s1)
     | (Inr index, s1) \<Rightarrow>
         (let recordId = dec_string now in
          case writeRecord rt cfg collectionName recordId record binary s1 of
            (Inl err, s2) \<Rightarrow> (Inl err, s2)
          | (Inr u, s2) \<Rightarrow>
              (let index' = index @ [\<lparr>id' = recordId, isBinary = binary\<rparr>];
                   s3 = s2\<lparr>indexCache := (indexCache s2)(collectionName \<mapsto> index')\<rparr>
               in case updateIndex rt cfg collectionName index' s3 of
                    (Inl err, s4) \<Rightarrow> (Inl err, s4)
                  | (Inr u, s4) \<Rightarrow> (Inr recordId, s4))))"

definition DataFileRepo_updateRecord ::
  "runtime \<Rightarrow> config \<Rightarrow> string \<Rightarrow> string \<Rightarrow> payload \<Rightarrow> bool \<Rightarrow> store
     \<Rightarrow> (error + unit) \<times> store" where
  "DataFileRepo_updateRecord rt cfg collectionName recordId newData binary s =
    (let s0 = getMutex collectionName s in
     case getIndex rt cfg collectionName s0 of
       (Inl err, s1) \<Rightarrow> (Inl err, s1)
     | (Inr index, s1) \<Rightarrow>
         (case find (\<lambda>item. id' item = recordId) index of
            None \<Rightarrow> (Inl (RecordNotFound recordId collectionName), s1)
          | Some entry \<Rightarrow>
              (case writeRecord rt cfg collectionName recordId newData binary s1 of
                 (Inl err, s3) \<Rightarrow> (Inl err, s3)
               | (Inr u, s3) \<Rightarrow>
                   (if isBinary entry \<noteq> binary then
                      (let index' = assignIsBinary recordId binary index;
                           s4 = s3\<lparr>indexCache := (indexCache s3)(collectionName \<mapsto> index')\<rparr>
                       in updateIndex rt cfg collectionName index' s4)
                    else (Inr (), s3)))))"

section \<open>Notions the properties are stated with\<close>

definition isBuffer :: "payload \<Rightarrow> bool" where
  "isBuffer data = (case data of Buffer bs \<Rightarrow> True | Plain v \<Rightarrow> False)"

text \<open>A value the configured text format represents: dumping it gives a text that
  parses back to it.\<close>

definition representable :: "runtime \<Rightarrow> config \<Rightarrow> json \<Rightarrow> bool" where
  "representable rt cfg v =
    (case dumpText rt cfg v of
       None \<Rightarrow> False
     | Some fileContent \<Rightarrow> parseText rt cfg fileContent = Some v)"

definition storable :: "runtime \<Rightarrow> config \<Rightarrow> payload \<Rightarrow> bool" where
  "storable rt cfg data = (case data of Buffer bs \<Rightarrow> True | Plain v \<Rightarrow> representable rt cfg v)"

text \<open>The index of a collection is on disk as the cache has it.\<close>

definition index_committed :: "runtime \<Rightarrow> config \<Rightarrow> string \<Rightarrow> store \<Rightarrow> bool" where
  "index_committed rt cfg collectionName s =
    (case indexCache s collectionName of
       None \<Rightarrow> False
     | Some index \<Rightarrow>
         (case dumpText rt cfg (indexJson index) of
            None \<Rightarrow> False
          | Some indexContent \<Rightarrow>
              files s (getIndexFilePath cfg collectionName) = Some (utf8_encode indexContent)))"

text \<open>The errors with which \<^verbatim>\<open>updateIndex\<close> reports that the index was not persisted.\<close>

fun index_persist_error :: "config \<Rightarrow> string \<Rightarrow> error \<Rightarrow> bool" where
  "index_persist_error cfg collectionName (SerializeIndexFailed c) = (c = collectionName)"
| "index_persist_error cfg collectionName (FsError call code p) =
     (call = WriteFile \<and> p = getIndexFilePath cfg collectionName)"
| "index_persist_error cfg collectionName e = False"

text \<open>What a mutating method owes the cache when it ends: after an error of
  persisting the index the cache has no entry for the collection, and after success
  the index is on disk as the cache has it.\<close>

definition evicts_on_failure :: "config \<Rightarrow> string \<Rightarrow> (error + 'a) \<times> store \<Rightarrow> bool" where
  "evicts_on_failure cfg collectionName out =
    (case out of
       (Inl err, s') \<Rightarrow>
         index_persist_error cfg collectionName err \<longrightarrow> indexCache s' collectionName = None
     | (Inr x, s') \<Rightarrow> True)"

definition coherent_outcome ::
  "runtime \<Rightarrow> config \<Rightarrow> string \<Rightarrow> (error + 'a) \<times> store \<Rightarrow> bool" where
  "coherent_outcome rt cfg collectionName out =
    (case out of
       (Inl err, s') \<Rightarrow>
         index_persist_error cfg collectionName err \<longrightarrow> indexCache s' collectionName = None
     | (Inr x, s') \<Rightarrow> index_committed rt cfg collectionName s')"

text \<open>The records of a list of index entries, read one after the other; the first
  error ends it.\<close>

fun collect :: "(error + 'a) list \<Rightarrow> error + 'a list" where
  "collect [] = Inr []"
| "collect (r # rs) =
    (case r of
       Inl err \<Rightarrow> Inl err
     | Inr x \<Rightarrow> (case collect rs of Inl err \<Rightarrow> Inl err | Inr xs \<Rightarrow> Inr (x # xs)))"

definition records_of ::
  "runtime \<Rightarrow> config \<Rightarrow> string \<Rightarrow> IndexRecord list \<Rightarrow> store \<Rightarrow> error + payload list" where
  "records_of rt cfg collectionName entries s =
     collect (map (\<lambda>e. readRecord rt cfg collectionName (id' e) (isBinary e) s) entries)"

text \<open>The page as the specification words it, \<^verbatim>\<open>entries[S:S+L]\<close>, and the page the
  code takes: a limit of zero counts as no limit.\<close>

definition page_spec :: "IndexRecord list \<Rightarrow> nat \<Rightarrow> nat \<Rightarrow> IndexRecord list" where
  "page_spec entries L S = take L (drop S entries)"

definition page :: "IndexRecord list \<Rightarrow> nat option \<Rightarrow> nat option \<Rightarrow> IndexRecord list" where
  "page entries limit skip =
    (let rest = drop (case skip of None \<Rightarrow> 0 | Some S \<Rightarrow> S) entries in
     case limit of
       None \<Rightarrow> rest
     | Some L \<Rightarrow> if L = 0 then rest else take L rest)"

text \<open>The entries the loop of \<^verbatim>\<open>getRecords\<close> still has to visit when its counter
  is \<open>i\<close>, and the ids it warns about: those of the entries whose record is falsy.\<close>

definition loop_slice :: "IndexRecord list \<Rightarrow> int \<Rightarrow> int \<Rightarrow> IndexRecord list" where
  "loop_slice index end' i = take (nat (min (int (length index)) end') - nat i) (drop (nat i) index)"

fun warnings :: "IndexRecord list \<Rightarrow> payload list \<Rightarrow> string list" where
  "warnings (e # es) (r # rs) = (if falsy r then id' e # warnings es rs else warnings es rs)"
| "warnings es rs = []"

text \<open>The file of an index entry is missing: reading it fails with \<^verbatim>\<open>ENOENT\<close>.\<close>

definition file_missing :: "config \<Rightarrow> string \<Rightarrow> store \<Rightarrow> IndexRecord \<Rightarrow> bool" where
  "file_missing cfg collectionName s e =
    (case fs_readFile (getRecordFilePath cfg collectionName (id' e) (isBinary e)) s of
       Inl err \<Rightarrow> err_code err = Some ENOENT
     | Inr bs \<Rightarrow> False)"

text \<open>The result the specification words for a page with missing files: the
  entries whose file is missing are left out.\<close>

definition decodable_records ::
  "runtime \<Rightarrow> config \<Rightarrow> string \<Rightarrow> IndexRecord list \<Rightarrow> store \<Rightarrow> error + payload list" where
  "decodable_records rt cfg collectionName entries s =
     records_of rt cfg collectionName
       (filter (\<lambda>e. \<not> file_missing cfg collectionName s e) entries) s"

section \<open>A store to run the methods on\<close>

text \<open>
  The theorems below hold for every runtime. To run the methods on concrete
  inputs, \<open>demo_runtime\<close> prints a value in JSON's syntax (without the
  indentation) and parses, among the documents it is given, the one a text prints.
\<close>

fun render :: "json \<Rightarrow> string" where
  "render JNull = ''null''"
| "render (JBool b) = (if b then ''true'' else ''false'')"
| "render (JNum n) = (if n < 0 then ''-'' @ dec_string (nat (- n)) else dec_string (nat n))"
| "render (JStr s) = [CHR 0x22] @ s @ [CHR 0x22]"
| "render (JArr vs) = ''['' @ concat (map (\<lambda>v. render v @ '','') vs) @ '']''"
| "render (JObj kvs) =
     ''{'' @ concat (map (\<lambda>kv. [CHR 0x22] @ fst kv @ [CHR 0x22] @ '':'' @ render (snd kv) @ '','') kvs)
       @ ''}''"

definition demo_runtime :: "json list \<Rightarrow> runtime" where
  "demo_runtime docs =
    \<lparr>JSON_stringify = (\<lambda>v. Some (render v)),
     JSON_parse = (\<lambda>fileContent. find (\<lambda>d. render d = fileContent) docs),
     yaml_dump = (\<lambda>v. Some (render v)),
     yaml_load = (\<lambda>fileContent. find (\<lambda>d. render d = fileContent) docs),
     ToUint8 = (\<lambda>v. case v of JNum n \<Rightarrow> word_of_int n | _ \<Rightarrow> 0),
     ToArrayLength = (\<lambda>v. case v of JNum n \<Rightarrow> if 0 \<le> n then Some (nat n) else None | _ \<Rightarrow> None)\<rparr>"

definition demo_config :: config where
  "demo_config = \<lparr>baseDir = ''storage'', storageType = ''json''\<rparr>"

text \<open>The store right after start, with the storage directory in place.\<close>

definition fresh_store :: store where
  "fresh_store =
    \<lparr>dirs = {[''storage'']}, files = Map.empty, denied = {},
     indexCache = Map.empty, mutexes = {}, warned = []\<rparr>"

text \<open>The collection \<^verbatim>\<open>users\<close> of the specification's example: the document
  \<^verbatim>\<open>{name: "Ann"}\<close> under \<^verbatim>\<open>r1\<close> and three bytes under \<^verbatim>\<open>r2\<close>.\<close>

definition ann :: json where
  "ann = JObj [(''name'', JStr ''Ann'')]"

definition users_index :: "IndexRecord list" where
  "users_index = [\<lparr>id' = ''r1'', isBinary = False\<rparr>, \<lparr>id' = ''r2'', isBinary = True\<rparr>]"

definition users_store :: store where
  "users_store =
    \<lparr>dirs = {[''storage''], [''storage'', ''users'']},
     files = [[''storage'', ''users'', ''index.json''] \<mapsto> utf8_encode (render (indexJson users_index)),
              [''storage'', ''users'', ''r1.json''] \<mapsto> utf8_encode (render ann),
              [''storage'', ''users'', ''r2.bin''] \<mapsto> [1, 2, 3]],
     denied = {},
     indexCache = [''users'' \<mapsto> users_index],
     mutexes = {''users''},
     warned = []\<rparr>"

definition bob :: json where
  "bob = JObj [(''name'', JStr ''Bob'')]"

text \<open>The same store when the operating system refuses every call on the index
  file.\<close>

definition locked_store :: store where
  "locked_store = users_store\<lparr>denied := {[''storage'', ''users'', ''index.json'']}\<rparr>"

text \<open>The same store after the file of \<^verbatim>\<open>r1\<close> was lost.\<close>

definition orphaned_store :: store where
  "orphaned_store =
     users_store\<lparr>files := (files users_store)([''storage'', ''users'', ''r1.json''] := None)\<rparr>"

text \<open>The update of the specification's example and the document it leaves.\<close>

definition age30 :: json where
  "age30 = JObj [(''age'', JNum 30)]"

definition ann30 :: json where
  "ann30 = JObj [(''name'', JStr ''Ann''), (''age'', JNum 30)]"

text \<open>The collection \<^verbatim>\<open>users\<close> right after it was created.\<close>

definition empty_users_store :: store where
  "empty_users_store =
    \<lparr>dirs = {[''storage''], [''storage'', ''users'']},
     files = [[''storage'', ''users'', ''index.json''] \<mapsto> utf8_encode ''[]''],
     denied = {},
     indexCache = [''users'' \<mapsto> []],
     mutexes = {},
     warned = []\<rparr>"

text \<open>The same collection after \<^verbatim>\<open>DataFileRepo.insertRecord\<close> stored \<^verbatim>\<open>{name: "Ann"}\<close>
  while the clock read 1700000000000.\<close>

definition after_first_insert :: store where
  "after_first_insert =
     empty_users_store\<lparr>
        mutexes := {''users''},
        indexCache := [''users'' \<mapsto> [\<lparr>id' = ''1700000000000'', isBinary = False\<rparr>]],
        files := [[''storage'', ''users'', ''index.json''] \<mapsto>
                    utf8_encode (render (indexJson [\<lparr>id' = ''1700000000000'', isBinary = False\<rparr>])),
                  [''storage'', ''users'', ''1700000000000.json''] \<mapsto> utf8_encode (render ann)]\<rparr>"

section \<open>Basic facts\<close>

declare getRecords_loop.simps [simp del]

declare dec_string.simps [simp del]

lemma utf8_decode_encode [simp]: "utf8_decode (utf8_encode t) = t"
  by (simp add: utf8_decode_def utf8_encode_def comp_def unat_of_nat map_idI)

lemma getIndex_getMutex:
  "getIndex rt cfg c (getMutex c' s) =
     (fst (getIndex rt cfg c s), getMutex c' (snd (getIndex rt cfg c s)))"
  by (simp add: getIndex_def getMutex_def fs_readFile_def dir_exists_def Let_def
           split: option.splits sum.splits)

lemma updateIndex_cases:
  "updateIndex rt cfg c ix s = (r, s') \<Longrightarrow>
     (case r of
        Inl e \<Rightarrow> indexCache s' c = None
      | Inr u \<Rightarrow> indexCache s' c = Some ix \<and> index_committed rt cfg c s')"
  by (auto simp: updateIndex_def fs_writeFile_def index_committed_def Let_def
           split: option.splits if_splits sum.splits prod.splits)

lemma find_append:
  "find P (xs @ ys) = (case find P xs of None \<Rightarrow> find P ys | Some x \<Rightarrow> Some x)"
  by (induction xs) simp_all

text \<open>What the private methods do to the state.\<close>

lemma readRecord_cong:
  "files s' = files s \<Longrightarrow> dirs s' = dirs s \<Longrightarrow> denied s' = denied s \<Longrightarrow>
     readRecord rt cfg c r b s' = readRecord rt cfg c r b s"
  by (simp add: readRecord_def fs_readFile_def dir_exists_def Let_def)

lemma getIndex_Inl: "getIndex rt cfg c s = (Inl e, s1) \<Longrightarrow> s1 = s"
  by (auto simp: getIndex_def Let_def split: option.splits sum.splits if_splits)

lemma getIndex_Inr:
  "getIndex rt cfg c s = (Inr ix, s1) \<Longrightarrow> s1 = s\<lparr>indexCache := (indexCache s)(c \<mapsto> ix)\<rparr>"
  by (auto simp: getIndex_def Let_def fun_upd_idem split: option.splits sum.splits if_splits)

lemma getIndex_cached: "indexCache s c = Some ix \<Longrightarrow> getIndex rt cfg c s = (Inr ix, s)"
  by (simp add: getIndex_def)

lemma getIndex_fst_Inr:
  "fst (getIndex rt cfg c s) = Inr ix \<Longrightarrow>
     getIndex rt cfg c s = (Inr ix, s\<lparr>indexCache := (indexCache s)(c \<mapsto> ix)\<rparr>)"
  using getIndex_Inr [of rt cfg c s ix "snd (getIndex rt cfg c s)"]
  by (cases "getIndex rt cfg c s") simp

lemma writeRecord_Inl: "writeRecord rt cfg c r d b s = (Inl e, s2) \<Longrightarrow> s2 = s"
  by (auto simp: writeRecord_def writeTextFile_def writeBinaryFile_def fs_writeFile_def Let_def
           split: payload.splits option.splits if_splits)

lemma writeRecord_Inr:
  "writeRecord rt cfg c r d b s = (Inr u, s2) \<Longrightarrow>
     isBuffer d = b \<and>
     getRecordFilePath cfg c r b \<notin> denied s \<and> \<not> dir_exists s (getRecordFilePath cfg c r b) \<and>
     (\<exists>bs. s2 = s\<lparr>files := (files s)(getRecordFilePath cfg c r b \<mapsto> bs)\<rparr> \<and>
        (case d of
           Buffer bs' \<Rightarrow> bs = bs'
         | Plain v \<Rightarrow> (\<exists>t. dumpText rt cfg v = Some t \<and> bs = utf8_encode t)))"
  by (auto simp: writeRecord_def writeTextFile_def writeBinaryFile_def fs_writeFile_def Let_def
        isBuffer_def split: payload.splits option.splits if_splits)

lemma fs_writeFile_ok:
  "p \<notin> denied s \<Longrightarrow> p \<notin> dirs s \<Longrightarrow> p \<noteq> [] \<Longrightarrow> butlast p \<in> dirs s \<Longrightarrow>
     fs_writeFile p bs s = (Inr (), s\<lparr>files := (files s)(p \<mapsto> bs)\<rparr>)"
  by (simp add: fs_writeFile_def dir_exists_def)

lemma updateIndex_Inl:
  "updateIndex rt cfg c ix s = (Inl e, s') \<Longrightarrow>
     s' = s\<lparr>indexCache := (indexCache s)(c := None)\<rparr> \<and> index_persist_error cfg c e"
  by (auto simp: updateIndex_def fs_writeFile_def Let_def
           split: option.splits if_splits sum.splits prod.splits)

lemma updateIndex_Inr:
  "updateIndex rt cfg c ix s = (Inr u, s') \<Longrightarrow>
     (\<exists>t. dumpText rt cfg (indexJson ix) = Some t \<and>
        s' = s\<lparr>indexCache := (indexCache s)(c \<mapsto> ix),
               files := (files s)(getIndexFilePath cfg c \<mapsto> utf8_encode t)\<rparr>)"
  by (auto simp: updateIndex_def fs_writeFile_def Let_def
           split: option.splits if_splits sum.splits prod.splits)

lemma record_path_bin_not_index: "getRecordFilePath cfg c r True \<noteq> getIndexFilePath cfg c"
proof
  assume "getRecordFilePath cfg c r True = getIndexFilePath cfg c"
  then have "r @ ''.bin'' = ''index.'' @ getFileExtension cfg"
    by (simp add: getRecordFilePath_def getIndexFilePath_def)
  then have "rev (r @ ''.bin'') = rev (''index.'' @ getFileExtension cfg)" by simp
  then show False by (simp add: getFileExtension_def split: if_splits)
qed

lemma record_path_text_index_iff:
  "getRecordFilePath cfg c r False = getIndexFilePath cfg c \<longleftrightarrow> r = ''index''"
  by (simp add: getRecordFilePath_def getIndexFilePath_def)

lemma record_path_not_index:
  "r \<noteq> ''index'' \<Longrightarrow> getRecordFilePath cfg c r b \<noteq> getIndexFilePath cfg c"
  by (cases b) (simp_all add: record_path_bin_not_index record_path_text_index_iff)

lemma getIndex_error_not_persist:
  "getIndex rt cfg c s = (Inl e, s1) \<Longrightarrow> \<not> index_persist_error cfg c e"
  by (auto simp: getIndex_def fs_readFile_def Let_def split: option.splits sum.splits if_splits)

lemma writeRecord_error_not_persist:
  "writeRecord rt cfg c r d b s = (Inl e, s2) \<Longrightarrow> r \<noteq> ''index'' \<Longrightarrow> \<not> index_persist_error cfg c e"
  using record_path_not_index [of r cfg c b]
  by (auto simp: writeRecord_def writeTextFile_def writeBinaryFile_def fs_writeFile_def Let_def
           split: payload.splits option.splits if_splits)

lemma fold_sum_Inl:
  "fold_sum f a xs = Inl e \<Longrightarrow> \<exists>a' x. f a' x = Inl e"
  by (induction xs arbitrary: a) (auto split: sum.splits)

lemma fold_sum_Inl_mem:
  "fold_sum f a xs = Inl e \<Longrightarrow> \<exists>a' x. x \<in> set xs \<and> f a' x = Inl e"
proof (induction xs arbitrary: a)
  case Nil
  then show ?case by simp
next
  case (Cons x xs)
  show ?case
  proof (cases "f a x")
    case (Inl e')
    with Cons.prems show ?thesis by auto
  next
    case (Inr a')
    with Cons.prems have "fold_sum f a' xs = Inl e" by simp
    from Cons.IH [OF this] show ?thesis by auto
  qed
qed

lemma Object_assign_PrototypeReplaced:
  assumes "Object_assign rt target source = Inl PrototypeReplaced"
  shows "map_of (ownProperties source) ''__proto__'' \<noteq> None"
using assms proof (induction rt target source rule: Object_assign.induct)
  case (5 rt vs source)
  then obtain a x where "arraySet rt a x = Inl PrototypeReplaced"
    by (auto split: sum.splits dest: fold_sum_Inl)
  then show ?case
    by (auto simp: arraySet_def split: option.splits if_splits)
next
  case (7 rt bs source)
  then obtain a x where x: "x \<in> set (ownProperties source)"
    and "bufferSet rt a x = Inl PrototypeReplaced"
    by (auto split: sum.splits dest: fold_sum_Inl_mem)
  then have "fst x = ''__proto__''"
    by (auto simp: bufferSet_def split: option.splits if_splits)
  with x have "''__proto__'' \<in> fst ` set (ownProperties source)" by force
  then show ?case by (simp add: map_of_eq_None_iff)
qed (auto split: if_splits)

lemma readRecord_error:
  "readRecord rt cfg c r b s = Inl e \<Longrightarrow> e = ParseError \<or> (\<exists>code p. e = FsError ReadFile code p)"
  by (auto simp: readRecord_def fs_readFile_def Let_def split: sum.splits option.splits if_splits)

lemma Object_assign_error:
  "Object_assign rt target source = Inl e \<Longrightarrow>
     e = TypeError \<or> e = RangeError \<or> e = PrototypeReplaced"
proof (induction rt target source rule: Object_assign.induct)
  case (5 rt vs source)
  then obtain a x where "arraySet rt a x = Inl e"
    by (auto split: sum.splits dest: fold_sum_Inl)
  then show ?case
    by (auto simp: arraySet_def split: option.splits if_splits)
next
  case (7 rt bs source)
  then obtain a x where "bufferSet rt a x = Inl e"
    by (auto split: sum.splits dest: fold_sum_Inl)
  then show ?case
    by (auto simp: bufferSet_def split: option.splits if_splits)
qed (auto split: if_splits)

lemma Object_assign_isBuffer:
  "Object_assign rt target source = Inr data \<Longrightarrow> isBuffer data = isBuffer target"
  by (induction rt target source rule: Object_assign.induct)
     (auto simp: isBuffer_def split: if_splits sum.splits)

lemma getRecord_error_not_persist:
  "getRecord rt cfg c r s = (Inl e, s1) \<Longrightarrow> \<not> index_persist_error cfg c e"
  by (auto simp: getRecord_def readRecord_def fs_readFile_def Let_def
        dest: getIndex_error_not_persist
        split: prod.splits sum.splits option.splits if_splits)

text \<open>The definitions a run on the demo store unfolds.\<close>

lemmas run_defs =
  createCollection_def insertRecord_def getRecord_def getRecords_def updateRecord_def
  deleteRecord_def deleteCollection_def ensureDirExists_def writeRecord_def writeTextFile_def
  writeBinaryFile_def readRecord_def getMutex_def getIndex_def updateIndex_def
  getRecordFilePath_def getIndexFilePath_def getCollectionPath_def getFileExtension_def
  dumpText_def parseText_def indexJson_def fs_mkdir_def fs_readFile_def fs_writeFile_def
  fs_unlink_def fs_rm_def dir_exists_def Let_def
  demo_runtime_def demo_config_def users_store_def users_index_def fresh_store_def
  locked_store_def orphaned_store_def empty_users_store_def after_first_insert_def
  ann_def bob_def age30_def ann30_def

lemmas value_defs = ordinarySet_def bufferSet_def arraySet_def stringSet_def arrayIndex_def
  is_digit_def dec_value_def indexed_def dec_string.simps digit_char_def

lemma users_index_loaded: "fst (getIndex rt demo_config ''users'' users_store) = Inr users_index"
  by (simp add: getIndex_def users_store_def)

lemma insertRecord_Inr:
  assumes ix: "fst (getIndex rt cfg c s) = Inr index"
      and ok: "insertRecord rt cfg c d b recordId s = (Inr r, s')"
  shows "r = recordId \<and> isBuffer d = b \<and>
     getRecordFilePath cfg c recordId b \<notin> denied s \<and>
     \<not> dir_exists s (getRecordFilePath cfg c recordId b) \<and>
     (\<exists>bs t. (case d of Buffer bs' \<Rightarrow> bs = bs'
                | Plain v \<Rightarrow> (\<exists>t'. dumpText rt cfg v = Some t' \<and> bs = utf8_encode t')) \<and>
        dumpText rt cfg (indexJson (index @ [\<lparr>id' = recordId, isBinary = b\<rparr>])) = Some t \<and>
        s' = s\<lparr>mutexes := insert c (mutexes s),
               indexCache := (indexCache s)(c \<mapsto> index @ [\<lparr>id' = recordId, isBinary = b\<rparr>]),
               files := (files s)(getRecordFilePath cfg c recordId b \<mapsto> bs,
                                  getIndexFilePath cfg c \<mapsto> utf8_encode t)\<rparr>)"
proof -
  let ?s0 = "getMutex c s"
  let ?s1 = "?s0\<lparr>indexCache := (indexCache ?s0)(c \<mapsto> index)\<rparr>"
  have g: "getIndex rt cfg c ?s0 = (Inr index, ?s1)"
    using getIndex_fst_Inr [of rt cfg c ?s0 index] ix by (simp add: getIndex_getMutex)
  from ok g obtain s2 where w: "writeRecord rt cfg c recordId d b ?s1 = (Inr (), s2)"
    by (auto simp: insertRecord_def Let_def split: prod.splits sum.splits)
  let ?ix = "index @ [\<lparr>id' = recordId, isBinary = b\<rparr>]"
  from ok g w have u: "updateIndex rt cfg c ?ix (s2\<lparr>indexCache := (indexCache s2)(c \<mapsto> ?ix)\<rparr>) = (Inr (), s')"
    and r: "r = recordId"
    by (auto simp: insertRecord_def Let_def split: prod.splits sum.splits)
  from writeRecord_Inr [OF w] updateIndex_Inr [OF u] r show ?thesis
    by (auto simp: getMutex_def dir_exists_def insert_absorb split: payload.splits)
qed

section \<open>Creating a collection\<close>

lemma demo_created:
  "createCollection (demo_runtime []) demo_config ''users'' fresh_store =
     (Inr (),
      fresh_store\<lparr>dirs := {[''storage''], [''storage'', ''users'']},
        files := [[''storage'', ''users'', ''index.json''] \<mapsto> utf8_encode ''[]''],
        indexCache := [''users'' \<mapsto> []]\<rparr>)"
  by (simp add: createCollection_def ensureDirExists_def fs_mkdir_def dir_exists_def Let_def
        fresh_store_def demo_config_def demo_runtime_def getCollectionPath_def updateIndex_def
        dumpText_def getIndexFilePath_def getFileExtension_def indexJson_def fs_writeFile_def
        insert_commute)

text \<open>
  C3. The claim: \<^verbatim>\<open>createCollection(name)\<close> is idempotent, a call on a collection
  whose directory already exists is not an error, and a successful call leaves the
  empty list in the cache and an empty index on disk.
  \<^verbatim>\<open>LocalStore.ensureDirExists\<close> calls \<^verbatim>\<open>fs.mkdir(dirPath)\<close> without
  \<^verbatim>\<open>recursive\<close> and rethrows whatever it catches. So the first half fails: on an
  existing directory \<open>createCollection\<close> ends with the error of \<^verbatim>\<open>mkdir\<close> and does
  nothing. The second half holds.
\<close>

theorem createCollection_existing_directory:
  "(getCollectionPath cfg collectionName \<in> dirs s \<longrightarrow>
      (\<exists>code. createCollection rt cfg collectionName s =
         (Inl (FsError Mkdir code (getCollectionPath cfg collectionName)), s)))
   \<and> (\<forall>s'. createCollection rt cfg collectionName s = (Inr (), s') \<longrightarrow>
         indexCache s' collectionName = Some [] \<and> index_committed rt cfg collectionName s')"
proof (intro conjI impI allI)
  assume "getCollectionPath cfg collectionName \<in> dirs s"
  then show "\<exists>code. createCollection rt cfg collectionName s =
         (Inl (FsError Mkdir code (getCollectionPath cfg collectionName)), s)"
    by (auto simp: createCollection_def ensureDirExists_def fs_mkdir_def dir_exists_def Let_def)
next
  fix s'
  assume ok: "createCollection rt cfg collectionName s = (Inr (), s')"
  then obtain s1 where "updateIndex rt cfg collectionName [] s1 = (Inr (), s')"
    by (auto simp: createCollection_def Let_def split: prod.splits sum.splits)
  from updateIndex_cases [OF this]
  show "indexCache s' collectionName = Some []" and "index_committed rt cfg collectionName s'"
    by simp_all
qed

text \<open>The second call of the scenario "create \<^verbatim>\<open>users\<close> twice" fails with
  \<^verbatim>\<open>EEXIST\<close>; the first one, on the store after start, succeeds.\<close>

theorem createCollection_existing_directory_witness:
  "getCollectionPath demo_config ''users'' \<in> dirs users_store
   \<and> createCollection (demo_runtime []) demo_config ''users'' users_store =
       (Inl (FsError Mkdir EEXIST [''storage'', ''users'']), users_store)
   \<and> fst (createCollection (demo_runtime []) demo_config ''users'' fresh_store) = Inr ()
   \<and> indexCache (snd (createCollection (demo_runtime []) demo_config ''users'' fresh_store)) ''users''
       = Some []
   \<and> index_committed (demo_runtime []) demo_config ''users''
       (snd (createCollection (demo_runtime []) demo_config ''users'' fresh_store))"
proof -
  have d: "getCollectionPath demo_config ''users'' \<in> dirs users_store"
    by (simp add: getCollectionPath_def demo_config_def users_store_def)
  have e: "createCollection (demo_runtime []) demo_config ''users'' users_store =
       (Inl (FsError Mkdir EEXIST [''storage'', ''users'']), users_store)"
    by (simp add: createCollection_def ensureDirExists_def fs_mkdir_def dir_exists_def Let_def
        users_store_def demo_config_def getCollectionPath_def)
  note t = createCollection_existing_directory
    [of demo_config "''users''" fresh_store "demo_runtime []", THEN conjunct2, rule_format,
     OF demo_created]
  show ?thesis using d e t by (simp add: demo_created)
qed

text \<open>The sibling's \<^verbatim>\<open>ensureDirExists\<close> is the idempotent one: the same second call
  succeeds there and writes the empty index.\<close>

lemma DataFileRepo_createCollection_again:
  "DataFileRepo_createCollection (demo_runtime []) demo_config ''users'' users_store =
     (Inr (), users_store\<lparr>
        files := (files users_store)([''storage'', ''users'', ''index.json''] \<mapsto> utf8_encode ''[]''),
        indexCache := [''users'' \<mapsto> []]\<rparr>)"
  by (simp add: DataFileRepo_createCollection_def DataFileRepo_ensureDirExists_def
        fs_mkdir_recursive_def ancestors_def users_store_def demo_config_def demo_runtime_def
        getCollectionPath_def updateIndex_def dumpText_def getIndexFilePath_def
        getFileExtension_def indexJson_def fs_writeFile_def dir_exists_def Let_def
        upt_rec insert_commute insert_absorb)

section \<open>The cache and the index on disk\<close>

lemma coherent_updateIndex: "coherent_outcome rt cfg c (updateIndex rt cfg c ix s)"
  using updateIndex_cases [of rt cfg c ix s "fst (updateIndex rt cfg c ix s)" "snd (updateIndex rt cfg c ix s)"]
  by (auto simp: coherent_outcome_def split: prod.splits sum.splits)

lemma not_persist_coherent:
  "\<not> index_persist_error cfg c e \<Longrightarrow> coherent_outcome rt cfg c (Inl e, s')"
  by (simp add: coherent_outcome_def)

lemma coherent_createCollection: "coherent_outcome rt cfg c (createCollection rt cfg c s)"
proof (cases "ensureDirExists (getCollectionPath cfg c) s")
  case (Pair r s1)
  show ?thesis
  proof (cases r)
    case (Inl e)
    with Pair have "\<not> index_persist_error cfg c e"
      by (auto simp: ensureDirExists_def fs_mkdir_def split: if_splits)
    with Pair Inl show ?thesis
      by (simp add: createCollection_def Let_def not_persist_coherent)
  next
    case (Inr u)
    with Pair show ?thesis
      by (simp add: createCollection_def Let_def coherent_updateIndex)
  qed
qed

lemma coherent_insertRecord:
  assumes "recordId \<noteq> ''index''"
  shows "coherent_outcome rt cfg c (insertRecord rt cfg c d b recordId s)"
proof (cases "getIndex rt cfg c (getMutex c s)")
  case (Pair r s1)
  show ?thesis
  proof (cases r)
    case (Inl e)
    with Pair show ?thesis
      by (simp add: insertRecord_def Let_def not_persist_coherent getIndex_error_not_persist)
  next
    case (Inr index)
    show ?thesis
    proof (cases "writeRecord rt cfg c recordId d b s1")
      case w: (Pair r2 s2)
      show ?thesis
      proof (cases r2)
        case (Inl e)
        with Pair Inr w assms show ?thesis
          by (simp add: insertRecord_def Let_def not_persist_coherent writeRecord_error_not_persist)
      next
        case r2: (Inr u)
        let ?ix = "index @ [\<lparr>id' = recordId, isBinary = b\<rparr>]"
        let ?s3 = "s2\<lparr>indexCache := (indexCache s2)(c \<mapsto> ?ix)\<rparr>"
        have "coherent_outcome rt cfg c (updateIndex rt cfg c ?ix ?s3)"
          by (rule coherent_updateIndex)
        with Pair Inr w r2 show ?thesis
          by (auto simp: insertRecord_def Let_def coherent_outcome_def split: prod.splits sum.splits)
      qed
    qed
  qed
qed

lemma coherent_deleteRecord: "coherent_outcome rt cfg c (deleteRecord rt cfg c recordId s)"
proof (cases "getIndex rt cfg c (getMutex c s)")
  case (Pair r s1)
  show ?thesis
  proof (cases r)
    case (Inl e)
    with Pair show ?thesis
      by (simp add: deleteRecord_def Let_def not_persist_coherent getIndex_error_not_persist)
  next
    case (Inr index)
    show ?thesis
    proof (cases "find (\<lambda>item. id' item = recordId) index")
      case None
      with Pair Inr show ?thesis
        by (simp add: deleteRecord_def Let_def not_persist_coherent)
    next
      case (Some entry)
      let ?p = "getRecordFilePath cfg c recordId (isBinary entry)"
      show ?thesis
      proof (cases "fs_unlink ?p s1")
        case u: (Pair r2 s2)
        have "coherent_outcome rt cfg c
                (updateIndex rt cfg c (filter (\<lambda>item. id' item \<noteq> recordId) index) s2)"
          by (rule coherent_updateIndex)
        moreover have "\<And>e. r2 = Inl e \<Longrightarrow> \<not> index_persist_error cfg c e"
          using u by (auto simp: fs_unlink_def split: if_splits option.splits)
        ultimately show ?thesis using Pair Inr Some u
          by (cases r2) (auto simp: deleteRecord_def Let_def not_persist_coherent)
      qed
    qed
  qed
qed

lemma evicts_updateIndex: "evicts_on_failure cfg c (updateIndex rt cfg c ix s)"
  using coherent_updateIndex [of rt cfg c ix s]
  by (auto simp: evicts_on_failure_def coherent_outcome_def split: prod.splits sum.splits)

lemma not_persist_evicts:
  "\<not> index_persist_error cfg c e \<Longrightarrow> evicts_on_failure cfg c (Inl e, s')"
  by (simp add: evicts_on_failure_def)

lemma evicts_updateRecord:
  assumes ni: "recordId \<noteq> ''index''"
  shows "evicts_on_failure cfg c (updateRecord rt cfg c recordId d b s)"
proof (cases "getIndex rt cfg c (getMutex c s)")
  case (Pair r s1)
  show ?thesis
  proof (cases r)
    case (Inl e)
    with Pair show ?thesis
      by (simp add: updateRecord_def Let_def not_persist_evicts getIndex_error_not_persist)
  next
    case (Inr index)
    show ?thesis
    proof (cases "find (\<lambda>item. id' item = recordId) index")
      case None
      with Pair Inr show ?thesis
        by (simp add: updateRecord_def Let_def not_persist_evicts)
    next
      case (Some entry)
      show ?thesis
      proof (cases "getRecord rt cfg c recordId s1")
        case g: (Pair r2 s2)
        show ?thesis
        proof (cases r2)
          case (Inl e)
          with Pair Inr Some g show ?thesis
            by (simp add: updateRecord_def Let_def not_persist_evicts getRecord_error_not_persist)
        next
          case r2: (Inr data)
          show ?thesis
          proof (cases "Object_assign rt data d")
            case (Inl e)
            then have "\<not> index_persist_error cfg c e"
              by (auto dest: Object_assign_error)
            with Pair Inr Some g r2 Inl show ?thesis
              by (simp add: updateRecord_def Let_def not_persist_evicts)
          next
            case a: (Inr data')
            show ?thesis
            proof (cases "writeRecord rt cfg c recordId data' b s2")
              case w: (Pair r3 s3)
              show ?thesis
              proof (cases r3)
                case (Inl e)
                with Pair Inr Some g r2 a w ni show ?thesis
                  by (simp add: updateRecord_def Let_def not_persist_evicts
                        writeRecord_error_not_persist)
              next
                case r3: (Inr u)
                with Pair Inr Some g r2 a w show ?thesis
                  by (simp add: updateRecord_def Let_def evicts_updateIndex)
                     (simp add: evicts_on_failure_def)
              qed
            qed
          qed
        qed
      qed
    qed
  qed
qed

text \<open>
  C9. When persisting the index fails, by serialisation or by the write, the cache
  entry of the collection is removed before the error leaves; after a successful
  mutation the index on disk is the one in the cache. \<^verbatim>\<open>updateIndex\<close> does it, and
  every mutating method ends with it: \<^verbatim>\<open>createCollection\<close>, \<^verbatim>\<open>insertRecord\<close>,
  \<^verbatim>\<open>deleteRecord\<close> and \<^verbatim>\<open>updateRecord\<close>. The errors of persisting the index are told
  from those of writing a record by the path on the error, so the record id is not
  the word \<^verbatim>\<open>index\<close> (an id is a UUID). \<^verbatim>\<open>updateRecord\<close> succeeds only without
  writing the index, so for it the theorem speaks of failure alone.
\<close>

theorem index_write_failure_evicts_cache:
  "(case updateIndex rt cfg c newIndex s of
      (Inl err, s') \<Rightarrow> index_persist_error cfg c err \<and> indexCache s' c = None
    | (Inr u, s') \<Rightarrow> indexCache s' c = Some newIndex \<and> index_committed rt cfg c s')
   \<and> coherent_outcome rt cfg c (createCollection rt cfg c s)
   \<and> (recordId \<noteq> ''index'' \<longrightarrow>
        coherent_outcome rt cfg c (insertRecord rt cfg c d b recordId s))
   \<and> coherent_outcome rt cfg c (deleteRecord rt cfg c recordId s)
   \<and> (recordId \<noteq> ''index'' \<longrightarrow>
        evicts_on_failure cfg c (updateRecord rt cfg c recordId d b s))"
proof -
  have "case updateIndex rt cfg c newIndex s of
      (Inl err, s') \<Rightarrow> index_persist_error cfg c err \<and> indexCache s' c = None
    | (Inr u, s') \<Rightarrow> indexCache s' c = Some newIndex \<and> index_committed rt cfg c s'"
    using updateIndex_cases [of rt cfg c newIndex s]
      updateIndex_Inl [of rt cfg c newIndex s]
    by (auto split: prod.splits sum.splits)
  then show ?thesis
    by (simp add: coherent_createCollection coherent_insertRecord coherent_deleteRecord
          evicts_updateRecord)
qed

lemma locked_insert:
  "fst (insertRecord (demo_runtime []) demo_config ''users'' (Buffer [9]) True ''r3'' locked_store)
     = Inl (FsError WriteFile EACCES [''storage'', ''users'', ''index.json''])"
  by (simp add: run_defs)

theorem index_write_failure_evicts_cache_witness:
  "''r3'' \<noteq> ''index''
   \<and> indexCache locked_store ''users'' = Some users_index
   \<and> fst (insertRecord (demo_runtime []) demo_config ''users'' (Buffer [9]) True ''r3'' locked_store)
       = Inl (FsError WriteFile EACCES [''storage'', ''users'', ''index.json''])
   \<and> indexCache (snd (insertRecord (demo_runtime []) demo_config ''users'' (Buffer [9]) True ''r3''
        locked_store)) ''users'' = None
   \<and> fst (insertRecord (demo_runtime []) demo_config ''users'' (Buffer [9]) True ''r3'' users_store)
       = Inr ''r3''
   \<and> index_committed (demo_runtime []) demo_config ''users''
        (snd (insertRecord (demo_runtime []) demo_config ''users'' (Buffer [9]) True ''r3'' users_store))"
proof -
  have ni: "''r3'' \<noteq> ''index''" by simp
  have ok: "fst (insertRecord (demo_runtime []) demo_config ''users'' (Buffer [9]) True ''r3'' users_store)
       = Inr ''r3''"
    by (simp add: run_defs)
  have pe: "index_persist_error demo_config ''users''
              (FsError WriteFile EACCES [''storage'', ''users'', ''index.json''])"
    by (simp add: run_defs)
  have c0: "indexCache locked_store ''users'' = Some users_index"
    by (simp add: locked_store_def users_store_def)
  note t1 = index_write_failure_evicts_cache
    [where rt = "demo_runtime []" and cfg = demo_config and c = "''users''" and s = locked_store
       and recordId = "''r3''" and d = "Buffer [9]" and b = True]
  note t2 = index_write_failure_evicts_cache
    [where rt = "demo_runtime []" and cfg = demo_config and c = "''users''" and s = users_store
       and recordId = "''r3''" and d = "Buffer [9]" and b = True]
  obtain r1 s1 where p1: "insertRecord (demo_runtime []) demo_config ''users'' (Buffer [9]) True ''r3''
        locked_store = (r1, s1)"
    by (cases "insertRecord (demo_runtime []) demo_config ''users'' (Buffer [9]) True ''r3'' locked_store")
  obtain r2 s2 where p2: "insertRecord (demo_runtime []) demo_config ''users'' (Buffer [9]) True ''r3''
        users_store = (r2, s2)"
    by (cases "insertRecord (demo_runtime []) demo_config ''users'' (Buffer [9]) True ''r3'' users_store")
  from t1 ni have "coherent_outcome (demo_runtime []) demo_config ''users'' (r1, s1)"
    by (simp add: p1)
  with locked_insert pe have a: "indexCache s1 ''users'' = None"
    by (simp add: p1 coherent_outcome_def)
  from t2 ni have "coherent_outcome (demo_runtime []) demo_config ''users'' (r2, s2)"
    by (simp add: p2)
  with ok have b: "index_committed (demo_runtime []) demo_config ''users'' s2"
    by (simp add: p2 coherent_outcome_def)
  show ?thesis using ni c0 locked_insert a ok b by (simp add: p1 p2)
qed

section \<open>Inserting a record\<close>

text \<open>When the index loads, the directory of the collection is there, the record
  file and the index file can be written, the payload fits the flag and the codec
  dumps the payload and the new index, \<^verbatim>\<open>insertRecord\<close> returns the id.\<close>

lemma insertRecord_succeeds:
  assumes ix: "fst (getIndex rt cfg c s) = Inr index"
      and dir: "getCollectionPath cfg c \<in> dirs s"
      and nd: "getRecordFilePath cfg c recordId b \<notin> denied s" "getIndexFilePath cfg c \<notin> denied s"
      and nf: "getRecordFilePath cfg c recordId b \<notin> dirs s" "getIndexFilePath cfg c \<notin> dirs s"
      and fit: "isBuffer d = b"
      and dump: "\<And>v. d = Plain v \<Longrightarrow> dumpText rt cfg v \<noteq> None"
      and idump: "dumpText rt cfg (indexJson (index @ [\<lparr>id' = recordId, isBinary = b\<rparr>])) \<noteq> None"
  shows "fst (insertRecord rt cfg c d b recordId s) = Inr recordId"
proof -
  let ?s0 = "getMutex c s"
  let ?s1 = "?s0\<lparr>indexCache := (indexCache ?s0)(c \<mapsto> index)\<rparr>"
  let ?p = "getRecordFilePath cfg c recordId b"
  let ?q = "getIndexFilePath cfg c"
  let ?ix = "index @ [\<lparr>id' = recordId, isBinary = b\<rparr>]"
  have g: "getIndex rt cfg c ?s0 = (Inr index, ?s1)"
    using getIndex_fst_Inr [of rt cfg c ?s0 index] ix by (simp add: getIndex_getMutex)
  have fld: "denied ?s1 = denied s" "dirs ?s1 = dirs s"
    by (simp_all add: getMutex_def)
  have bl: "butlast ?p = getCollectionPath cfg c" "butlast ?q = getCollectionPath cfg c"
    by (simp_all add: getRecordFilePath_def getIndexFilePath_def butlast_append)
  have ne: "?p \<noteq> []" "?q \<noteq> []"
    by (simp_all add: getRecordFilePath_def getIndexFilePath_def getCollectionPath_def)
  have wf: "\<And>bs. fs_writeFile ?p bs ?s1 = (Inr (), ?s1\<lparr>files := (files ?s1)(?p \<mapsto> bs)\<rparr>)"
    by (rule fs_writeFile_ok) (simp_all add: fld nd nf ne bl dir)
  obtain bs where w: "writeRecord rt cfg c recordId d b ?s1
                        = (Inr (), ?s1\<lparr>files := (files ?s1)(?p \<mapsto> bs)\<rparr>)"
  proof (cases d)
    case (Buffer bs)
    with fit have "b" by (simp add: isBuffer_def)
    with Buffer wf [of bs] that [of bs] show ?thesis
      by (simp add: writeRecord_def writeBinaryFile_def Let_def)
  next
    case (Plain v)
    with fit have nb: "\<not> b" by (simp add: isBuffer_def)
    from dump [OF Plain] obtain t where "dumpText rt cfg v = Some t" by auto
    with Plain nb wf [of "utf8_encode t"] that [of "utf8_encode t"] show ?thesis
      by (simp add: writeRecord_def writeTextFile_def Let_def)
  qed
  let ?s2 = "?s1\<lparr>files := (files ?s1)(?p \<mapsto> bs)\<rparr>"
  let ?s3 = "?s2\<lparr>indexCache := (indexCache ?s2)(c \<mapsto> ?ix)\<rparr>"
  let ?s3' = "?s3\<lparr>indexCache := (indexCache ?s3)(c \<mapsto> ?ix)\<rparr>"
  from idump obtain t where t: "dumpText rt cfg (indexJson ?ix) = Some t"
    by auto
  have "fs_writeFile ?q (utf8_encode t) ?s3'
          = (Inr (), ?s3'\<lparr>files := (files ?s3')(?q \<mapsto> utf8_encode t)\<rparr>)"
    by (rule fs_writeFile_ok) (simp_all add: getMutex_def nd nf ne bl dir)
  then have "fst (updateIndex rt cfg c ?ix ?s3) = Inr ()"
    by (simp add: updateIndex_def t Let_def)
  then obtain s4 where "updateIndex rt cfg c ?ix ?s3 = (Inr (), s4)"
    by (cases "updateIndex rt cfg c ?ix ?s3") simp
  then show ?thesis
    by (simp add: insertRecord_def g w Let_def)
qed

text \<open>
  C1. Round trip: on a collection whose index loads, a payload that
  \<^verbatim>\<open>insertRecord\<close> accepted comes back from \<^verbatim>\<open>getRecord\<close> under the returned id: a
  plain value the configured format represents comes back equal, a \<^verbatim>\<open>Buffer\<close> byte
  for byte. The id is the one \<^verbatim>\<open>randomUUID()\<close> gave: not yet in the index, and not
  the word \<^verbatim>\<open>index\<close>.
\<close>

theorem insertRecord_getRecord_roundtrip:
  assumes ix: "fst (getIndex rt cfg c s) = Inr index"
      and fresh: "find (\<lambda>item. id' item = recordId) index = None"
      and ni: "recordId \<noteq> ''index''"
      and st: "storable rt cfg d"
      and ok: "insertRecord rt cfg c d b recordId s = (Inr r, s')"
  shows "r = recordId \<and> fst (getRecord rt cfg c r s') = Inr d"
proof -
  note e = insertRecord_Inr [OF ix ok]
  let ?p = "getRecordFilePath cfg c recordId b"
  from e obtain bs t where
    d: "case d of Buffer bs' \<Rightarrow> bs = bs' | Plain v \<Rightarrow> (\<exists>t'. dumpText rt cfg v = Some t' \<and> bs = utf8_encode t')"
    and s': "s' = s\<lparr>mutexes := insert c (mutexes s),
               indexCache := (indexCache s)(c \<mapsto> index @ [\<lparr>id' = recordId, isBinary = b\<rparr>]),
               files := (files s)(?p \<mapsto> bs, getIndexFilePath cfg c \<mapsto> utf8_encode t)\<rparr>"
    by blast
  from e have r: "r = recordId" and b: "isBuffer d = b" and nd: "?p \<notin> denied s"
    and ndir: "\<not> dir_exists s ?p" by simp_all
  have f: "find (\<lambda>item. id' item = recordId) (index @ [\<lparr>id' = recordId, isBinary = b\<rparr>])
             = Some \<lparr>id' = recordId, isBinary = b\<rparr>"
    using fresh by (simp add: find_append)
  have rd: "fs_readFile ?p s' = Inr bs"
    using nd ndir record_path_not_index [OF ni, of cfg c b]
    by (simp add: s' fs_readFile_def dir_exists_def)
  have "readRecord rt cfg c recordId b s' = Inr d"
    using rd d st b
    by (cases d) (auto simp: readRecord_def Let_def storable_def representable_def isBuffer_def
                        split: option.splits)
  then show ?thesis using r f
    by (simp add: getRecord_def getIndex_def s')
qed

lemma demo_insert_plain: "fst (insertRecord (demo_runtime [bob]) demo_config ''users'' (Plain bob) False
            ''123e4567-e89b-42d3-a456-426614174000'' users_store)
          = Inr ''123e4567-e89b-42d3-a456-426614174000''"
  by (simp add: run_defs)

lemma demo_insert_buffer: "fst (insertRecord (demo_runtime []) demo_config ''users'' (Buffer [7, 8]) True
            ''123e4567-e89b-42d3-a456-426614174000'' users_store)
          = Inr ''123e4567-e89b-42d3-a456-426614174000''"
  by (simp add: run_defs)

theorem insertRecord_getRecord_roundtrip_witness:
  "fst (insertRecord (demo_runtime [bob]) demo_config ''users'' (Plain bob) False
          ''123e4567-e89b-42d3-a456-426614174000'' users_store)
     = Inr ''123e4567-e89b-42d3-a456-426614174000''
   \<and> fst (getRecord (demo_runtime [bob]) demo_config ''users''
            ''123e4567-e89b-42d3-a456-426614174000''
            (snd (insertRecord (demo_runtime [bob]) demo_config ''users'' (Plain bob) False
                   ''123e4567-e89b-42d3-a456-426614174000'' users_store)))
     = Inr (Plain bob)
   \<and> fst (insertRecord (demo_runtime []) demo_config ''users'' (Buffer [7, 8]) True
          ''123e4567-e89b-42d3-a456-426614174000'' users_store)
     = Inr ''123e4567-e89b-42d3-a456-426614174000''
   \<and> fst (getRecord (demo_runtime []) demo_config ''users''
            ''123e4567-e89b-42d3-a456-426614174000''
            (snd (insertRecord (demo_runtime []) demo_config ''users'' (Buffer [7, 8]) True
                   ''123e4567-e89b-42d3-a456-426614174000'' users_store)))
     = Inr (Buffer [7, 8])"
proof -
  let ?u = "''123e4567-e89b-42d3-a456-426614174000''"
  have fresh: "find (\<lambda>item. id' item = ?u) users_index = None"
    by (simp add: users_index_def)
  have ni: "?u \<noteq> ''index''" by simp
  have st1: "storable (demo_runtime [bob]) demo_config (Plain bob)"
    by (simp add: storable_def representable_def dumpText_def parseText_def demo_runtime_def
          demo_config_def)
  have st2: "storable (demo_runtime []) demo_config (Buffer [7, 8])"
    by (simp add: storable_def)
  note a = insertRecord_getRecord_roundtrip
    [OF users_index_loaded fresh ni st1 surjective_pairing [of "insertRecord (demo_runtime [bob]) demo_config ''users'' (Plain bob) False ?u users_store", unfolded demo_insert_plain]]
  note b = insertRecord_getRecord_roundtrip
    [OF users_index_loaded fresh ni st2 surjective_pairing [of "insertRecord (demo_runtime []) demo_config ''users'' (Buffer [7, 8]) True ?u users_store", unfolded demo_insert_buffer]]
  show ?thesis using a b demo_insert_plain demo_insert_buffer by simp
qed

text \<open>
  C4. On a collection whose index loads, \<^verbatim>\<open>insertRecord\<close> fails with a Validation
  error exactly when the flag and the payload disagree (binary without a \<^verbatim>\<open>Buffer\<close>,
  or a \<^verbatim>\<open>Buffer\<close> without binary); the error comes before any write: no file and
  no directory has changed, and the index is the one that was loaded.
\<close>

theorem insertRecord_validation:
  assumes ix: "fst (getIndex rt cfg c s) = Inr index"
  shows "((\<exists>e. fst (insertRecord rt cfg c d b recordId s) = Inl e \<and> is_validation e)
            \<longleftrightarrow> b \<noteq> isBuffer d)
     \<and> (b \<noteq> isBuffer d \<longrightarrow>
          files (snd (insertRecord rt cfg c d b recordId s)) = files s
        \<and> dirs (snd (insertRecord rt cfg c d b recordId s)) = dirs s
        \<and> indexCache (snd (insertRecord rt cfg c d b recordId s)) = (indexCache s)(c \<mapsto> index)
        \<and> fst (getIndex rt cfg c (snd (insertRecord rt cfg c d b recordId s))) = Inr index)"
proof -
  let ?s0 = "getMutex c s"
  let ?s1 = "?s0\<lparr>indexCache := (indexCache ?s0)(c \<mapsto> index)\<rparr>"
  have g: "getIndex rt cfg c ?s0 = (Inr index, ?s1)"
    using getIndex_fst_Inr [of rt cfg c ?s0 index] ix by (simp add: getIndex_getMutex)
  have v: "\<And>e s2. writeRecord rt cfg c recordId d b ?s1 = (Inl e, s2) \<Longrightarrow> is_validation e
               \<Longrightarrow> b \<noteq> isBuffer d"
    by (auto simp: writeRecord_def writeTextFile_def writeBinaryFile_def fs_writeFile_def Let_def
          isBuffer_def split: payload.splits option.splits if_splits)
  have m: "b \<noteq> isBuffer d \<Longrightarrow>
             \<exists>e. writeRecord rt cfg c recordId d b ?s1 = (Inl e, ?s1) \<and> is_validation e"
    by (auto simp: writeRecord_def Let_def isBuffer_def split: payload.splits)
  have u: "\<And>ix' s3 e s4. updateIndex rt cfg c ix' s3 = (Inl e, s4) \<Longrightarrow> \<not> is_validation e"
    by (auto simp: updateIndex_def fs_writeFile_def Let_def
           split: option.splits if_splits sum.splits prod.splits)
  have fwd: "b \<noteq> isBuffer d" if "fst (insertRecord rt cfg c d b recordId s) = Inl e" "is_validation e" for e
    using that g v u
    by (auto simp: insertRecord_def Let_def split: prod.splits sum.splits)
  have bwd: "\<exists>e. insertRecord rt cfg c d b recordId s = (Inl e, ?s1) \<and> is_validation e" if "b \<noteq> isBuffer d"
    using m [OF that] g by (auto simp: insertRecord_def Let_def)
  show ?thesis
  proof (intro conjI impI iffI)
    assume "\<exists>e. fst (insertRecord rt cfg c d b recordId s) = Inl e \<and> is_validation e"
    then show "b \<noteq> isBuffer d" using fwd by blast
  next
    assume "b \<noteq> isBuffer d"
    from bwd [OF this] show "\<exists>e. fst (insertRecord rt cfg c d b recordId s) = Inl e \<and> is_validation e"
      by auto
  next
    assume a: "b \<noteq> isBuffer d"
    from bwd [OF a] obtain e where i: "insertRecord rt cfg c d b recordId s = (Inl e, ?s1)" by blast
    show "files (snd (insertRecord rt cfg c d b recordId s)) = files s"
      "dirs (snd (insertRecord rt cfg c d b recordId s)) = dirs s"
      "indexCache (snd (insertRecord rt cfg c d b recordId s)) = (indexCache s)(c \<mapsto> index)"
      "fst (getIndex rt cfg c (snd (insertRecord rt cfg c d b recordId s))) = Inr index"
      by (simp_all add: i getMutex_def getIndex_def)
  qed
qed

theorem insertRecord_validation_witness:
  "fst (getIndex (demo_runtime []) demo_config ''users'' users_store) = Inr users_index
   \<and> fst (insertRecord (demo_runtime []) demo_config ''users'' (Buffer [7]) False ''r3'' users_store)
       = Inl (ExpectedObject ''r3'' ''users'')
   \<and> (\<exists>e. fst (insertRecord (demo_runtime []) demo_config ''users'' (Buffer [7]) False ''r3''
               users_store) = Inl e \<and> is_validation e)
   \<and> files (snd (insertRecord (demo_runtime []) demo_config ''users'' (Buffer [7]) False ''r3''
               users_store)) = files users_store
   \<and> dirs (snd (insertRecord (demo_runtime []) demo_config ''users'' (Buffer [7]) False ''r3''
               users_store)) = dirs users_store
   \<and> indexCache (snd (insertRecord (demo_runtime []) demo_config ''users'' (Buffer [7]) False ''r3''
               users_store)) = (indexCache users_store)(''users'' \<mapsto> users_index)"
proof -
  have m: "False \<noteq> isBuffer (Buffer [7])" by (simp add: isBuffer_def)
  have e: "fst (insertRecord (demo_runtime []) demo_config ''users'' (Buffer [7]) False ''r3'' users_store)
       = Inl (ExpectedObject ''r3'' ''users'')"
    by (simp add: run_defs)
  note t = insertRecord_validation
    [OF users_index_loaded [of "demo_runtime []"], where d = "Buffer [7]" and b = False
       and recordId = "''r3''"]
  from t m users_index_loaded [of "demo_runtime []"] e show ?thesis by blast
qed

section \<open>Deleting a record\<close>

text \<open>
  C10. A successful \<^verbatim>\<open>deleteRecord(name, id)\<close> on a collection whose index loads
  persists the index without the entries whose id is \<open>id\<close>, the others unchanged
  and in their order; apart from the index file it touches the file of the record,
  which is gone, and no other file and no directory.
\<close>

theorem deleteRecord_frame:
  assumes ix: "fst (getIndex rt cfg c s) = Inr index"
      and ok: "deleteRecord rt cfg c recordId s = (Inr (), s')"
  shows "\<exists>entry. find (\<lambda>item. id' item = recordId) index = Some entry
       \<and> indexCache s' c = Some (filter (\<lambda>item. id' item \<noteq> recordId) index)
       \<and> index_committed rt cfg c s'
       \<and> (\<forall>p. p \<noteq> getRecordFilePath cfg c recordId (isBinary entry) \<and> p \<noteq> getIndexFilePath cfg c
             \<longrightarrow> files s' p = files s p)
       \<and> (recordId \<noteq> ''index'' \<longrightarrow> files s' (getRecordFilePath cfg c recordId (isBinary entry)) = None)
       \<and> dirs s' = dirs s"
proof -
  let ?s0 = "getMutex c s"
  let ?s1 = "?s0\<lparr>indexCache := (indexCache ?s0)(c \<mapsto> index)\<rparr>"
  let ?ix = "filter (\<lambda>item. id' item \<noteq> recordId) index"
  have g: "getIndex rt cfg c ?s0 = (Inr index, ?s1)"
    using getIndex_fst_Inr [of rt cfg c ?s0 index] ix by (simp add: getIndex_getMutex)
  from ok g obtain entry where f: "find (\<lambda>item. id' item = recordId) index = Some entry"
    by (auto simp: deleteRecord_def Let_def split: option.splits)
  let ?p = "getRecordFilePath cfg c recordId (isBinary entry)"
  obtain r2 s2 where ul: "fs_unlink ?p ?s1 = (r2, s2)" by (cases "fs_unlink ?p ?s1")
  from ok g f ul have u: "updateIndex rt cfg c ?ix s2 = (Inr (), s')"
    by (auto simp: deleteRecord_def Let_def split: sum.splits if_splits)
  from ok g f ul have r2: "r2 = Inr () \<or> (\<exists>e. r2 = Inl e \<and> err_code e = Some ENOENT)"
    by (auto simp: deleteRecord_def Let_def split: sum.splits if_splits)
  have s2: "dirs s2 = dirs s \<and> (\<forall>p. p \<noteq> ?p \<longrightarrow> files s2 p = files s p) \<and> files s2 ?p = None"
    using ul r2 by (auto simp: fs_unlink_def getMutex_def split: if_splits option.splits)
  from updateIndex_Inr [OF u] obtain t where
    s': "s' = s2\<lparr>indexCache := (indexCache s2)(c \<mapsto> ?ix),
               files := (files s2)(getIndexFilePath cfg c \<mapsto> utf8_encode t)\<rparr>"
    and dt: "dumpText rt cfg (indexJson ?ix) = Some t" by blast
  have "index_committed rt cfg c s'" by (simp add: index_committed_def s' dt)
  moreover have "recordId \<noteq> ''index'' \<longrightarrow> files s' ?p = None"
    using s2 record_path_not_index [of recordId cfg c "isBinary entry"] by (simp add: s')
  ultimately show ?thesis using f s2 by (auto simp: s')
qed

lemma demo_delete:
  "fst (deleteRecord (demo_runtime []) demo_config ''users'' ''r2'' users_store) = Inr ()"
  by (simp add: run_defs)

theorem deleteRecord_frame_witness:
  "fst (deleteRecord (demo_runtime []) demo_config ''users'' ''r2'' users_store) = Inr ()
   \<and> indexCache (snd (deleteRecord (demo_runtime []) demo_config ''users'' ''r2'' users_store)) ''users''
       = Some [\<lparr>id' = ''r1'', isBinary = False\<rparr>]
   \<and> index_committed (demo_runtime []) demo_config ''users''
        (snd (deleteRecord (demo_runtime []) demo_config ''users'' ''r2'' users_store))
   \<and> files (snd (deleteRecord (demo_runtime []) demo_config ''users'' ''r2'' users_store))
        [''storage'', ''users'', ''r1.json'']
       = files users_store [''storage'', ''users'', ''r1.json'']
   \<and> files (snd (deleteRecord (demo_runtime []) demo_config ''users'' ''r2'' users_store))
        [''storage'', ''users'', ''r2.bin''] = None
   \<and> dirs (snd (deleteRecord (demo_runtime []) demo_config ''users'' ''r2'' users_store))
       = dirs users_store"
proof -
  obtain s' where p: "deleteRecord (demo_runtime []) demo_config ''users'' ''r2'' users_store = (Inr (), s')"
    using demo_delete
    by (cases "deleteRecord (demo_runtime []) demo_config ''users'' ''r2'' users_store") simp
  have f: "find (\<lambda>item. id' item = ''r2'') users_index = Some \<lparr>id' = ''r2'', isBinary = True\<rparr>"
    by (simp add: users_index_def)
  have ni: "''r2'' \<noteq> ''index''" by simp
  have p1: "[''storage'', ''users'', ''r1.json'']
             \<noteq> getRecordFilePath demo_config ''users'' ''r2'' True
          \<and> [''storage'', ''users'', ''r1.json''] \<noteq> getIndexFilePath demo_config ''users''"
    by (simp add: run_defs)
  have p2: "getRecordFilePath demo_config ''users'' ''r2'' True = [''storage'', ''users'', ''r2.bin'']"
    by (simp add: run_defs)
  have fl: "filter (\<lambda>item. id' item \<noteq> ''r2'') users_index = [\<lparr>id' = ''r1'', isBinary = False\<rparr>]"
    by (simp add: users_index_def)
  from deleteRecord_frame [OF users_index_loaded p] f ni p1 p2 fl
  show ?thesis by (auto simp: p)
qed

section \<open>Reading a page of records\<close>

lemma records_of_cong:
  "files s' = files s \<Longrightarrow> dirs s' = dirs s \<Longrightarrow> denied s' = denied s \<Longrightarrow>
     records_of rt cfg c es s' = records_of rt cfg c es s"
  by (simp add: records_of_def readRecord_cong [of s' s])

lemma records_of_Cons:
  "records_of rt cfg c (e # es) s =
     (case readRecord rt cfg c (id' e) (isBinary e) s of
        Inl err \<Rightarrow> Inl err
      | Inr r \<Rightarrow> (case records_of rt cfg c es s of Inl err \<Rightarrow> Inl err | Inr rs \<Rightarrow> Inr (r # rs)))"
  by (simp add: records_of_def split: sum.splits)

lemma records_of_Nil [simp]: "records_of rt cfg c [] s = Inr []"
  by (simp add: records_of_def)

lemma loop_slice_done: "\<not> i < min (int (length index)) end' \<Longrightarrow> loop_slice index end' i = []"
  by (auto simp: loop_slice_def min_def split: if_splits)

lemma loop_exit:
  "\<not> i < min (int (length index)) end' \<Longrightarrow>
     getRecords_loop rt cfg c index end' i acc s = (Inr acc, s)"
  by (subst getRecords_loop.simps) (simp del: min_less_iff_conj)

lemma loop_step:
  "i < min (int (length index)) end' \<Longrightarrow> 0 \<le> i \<Longrightarrow>
     getRecords_loop rt cfg c index end' i acc s =
       (case readRecord rt cfg c (id' (index ! nat i)) (isBinary (index ! nat i)) s of
          Inl err \<Rightarrow> (Inl err, s)
        | Inr r \<Rightarrow>
            getRecords_loop rt cfg c index end' (i + 1) (acc @ [r])
              (if falsy r then s\<lparr>warned := warned s @ [id' (index ! nat i)]\<rparr> else s))"
  by (subst getRecords_loop.simps) (simp del: min_less_iff_conj add: Let_def)

lemma loop_slice_step:
  "i < min (int (length index)) end' \<Longrightarrow> 0 \<le> i \<Longrightarrow>
     loop_slice index end' i = index ! nat i # loop_slice index end' (i + 1)"
proof -
  assume a: "i < min (int (length index)) end'" "0 \<le> i"
  then have l: "nat i < length index" by linarith
  have "nat (min (int (length index)) end') - nat i = Suc (nat (min (int (length index)) end') - nat (i + 1))"
    using a by (auto simp: min_def split: if_splits)
  moreover have "drop (nat i) index = index ! nat i # drop (nat (i + 1)) index"
    using l a by (simp add: Cons_nth_drop_Suc nat_add_distrib)
  ultimately show ?thesis by (simp add: loop_slice_def)
qed

lemma loop_fst:
  "0 \<le> i \<Longrightarrow>
   fst (getRecords_loop rt cfg c index end' i acc s) =
     (case records_of rt cfg c (loop_slice index end' i) s of
        Inl err \<Rightarrow> Inl err
      | Inr rs \<Rightarrow> Inr (acc @ rs))"
proof (induction rt cfg c index end' i acc s rule: getRecords_loop.induct)
  case (1 rt cfg c index end' i acc s)
  show ?case
  proof (cases "i < min (int (length index)) end'")
    case False
    then show ?thesis
      by (simp add: loop_exit loop_slice_done del: min_less_iff_conj)
  next
    case True
    let ?e = "index ! nat i"
    note st = loop_slice_step [OF True "1.prems"]
    show ?thesis
    proof (cases "readRecord rt cfg c (id' ?e) (isBinary ?e) s")
      case (Inl err)
      then show ?thesis
        by (simp add: loop_step [OF True "1.prems"] st records_of_Cons)
    next
      case (Inr r)
      let ?s' = "if falsy r then s\<lparr>warned := warned s @ [id' ?e]\<rparr> else s"
      have ih: "fst (getRecords_loop rt cfg c index end' (i + 1) (acc @ [r]) ?s') =
         (case records_of rt cfg c (loop_slice index end' (i + 1)) ?s' of
            Inl err \<Rightarrow> Inl err | Inr rs \<Rightarrow> Inr ((acc @ [r]) @ rs))"
        using "1.IH" [OF True _ refl Inr] "1.prems" by simp
      have eq: "records_of rt cfg c (loop_slice index end' (i + 1)) ?s'
                 = records_of rt cfg c (loop_slice index end' (i + 1)) s"
        by (rule records_of_cong) simp_all
      show ?thesis using Inr ih
        by (simp add: loop_step [OF True "1.prems"] st records_of_Cons eq split: sum.splits)
    qed
  qed
qed

lemma loop_success:
  "0 \<le> i \<Longrightarrow> records_of rt cfg c (loop_slice index end' i) s = Inr rs \<Longrightarrow>
   getRecords_loop rt cfg c index end' i acc s =
     (Inr (acc @ rs), s\<lparr>warned := warned s @ warnings (loop_slice index end' i) rs\<rparr>)"
proof (induction rt cfg c index end' i acc s arbitrary: rs rule: getRecords_loop.induct)
  case (1 rt cfg c index end' i acc s)
  show ?case
  proof (cases "i < min (int (length index)) end'")
    case False
    then show ?thesis using "1.prems"
      by (simp add: loop_exit loop_slice_done del: min_less_iff_conj)
  next
    case True
    let ?e = "index ! nat i"
    note st = loop_slice_step [OF True "1.prems"(1)]
    from "1.prems"(2) obtain r rs' where
      r: "readRecord rt cfg c (id' ?e) (isBinary ?e) s = Inr r"
      and rs': "records_of rt cfg c (loop_slice index end' (i + 1)) s = Inr rs'"
      and rs: "rs = r # rs'"
      by (auto simp: st records_of_Cons split: sum.splits)
    let ?s' = "if falsy r then s\<lparr>warned := warned s @ [id' ?e]\<rparr> else s"
    have eq: "records_of rt cfg c (loop_slice index end' (i + 1)) ?s'
               = records_of rt cfg c (loop_slice index end' (i + 1)) s"
      by (rule records_of_cong) simp_all
    have ih: "getRecords_loop rt cfg c index end' (i + 1) (acc @ [r]) ?s' =
       (Inr ((acc @ [r]) @ rs'), ?s'\<lparr>warned := warned ?s' @ warnings (loop_slice index end' (i + 1)) rs'\<rparr>)"
      using "1.IH" [OF True _ refl r, of rs'] "1.prems"(1) rs' eq by simp
    show ?thesis using r ih
      by (simp add: loop_step [OF True "1.prems"(1)] st rs)
  qed
qed

lemma getRecords_fst:
  assumes ix: "fst (getIndex rt cfg c s) = Inr index"
      and s0: "0 \<le> (case skip of None \<Rightarrow> 0 | Some k \<Rightarrow> k)"
  shows "fst (getRecords rt cfg c limit skip s)
           = records_of rt cfg c
               (loop_slice index
                  (case limit of
                     None \<Rightarrow> int (length index)
                   | Some l \<Rightarrow> if l \<noteq> 0 then (case skip of None \<Rightarrow> 0 | Some k \<Rightarrow> k) + l
                              else int (length index))
                  (case skip of None \<Rightarrow> 0 | Some k \<Rightarrow> k)) s"
proof -
  let ?s1 = "s\<lparr>indexCache := (indexCache s)(c \<mapsto> index)\<rparr>"
  let ?start = "case skip of None \<Rightarrow> 0 | Some k \<Rightarrow> k"
  let ?end = "case limit of None \<Rightarrow> int (length index)
                | Some l \<Rightarrow> if l \<noteq> 0 then ?start + l else int (length index)"
  have g: "getIndex rt cfg c s = (Inr index, ?s1)" by (rule getIndex_fst_Inr [OF ix])
  have st: "(case skip of None \<Rightarrow> 0 | Some k \<Rightarrow> if k \<noteq> 0 then k else 0) = ?start"
    by (cases skip) auto
  have "fst (getRecords rt cfg c limit skip s)
          = fst (getRecords_loop rt cfg c index ?end ?start [] ?s1)"
    by (simp add: getRecords_def g Let_def st)
  also have "\<dots> = (case records_of rt cfg c (loop_slice index ?end ?start) ?s1 of
        Inl err \<Rightarrow> Inl err | Inr rs \<Rightarrow> Inr ([] @ rs))"
    by (rule loop_fst [OF s0])
  also have "records_of rt cfg c (loop_slice index ?end ?start) ?s1
               = records_of rt cfg c (loop_slice index ?end ?start) s"
    by (rule records_of_cong) simp_all
  finally show ?thesis by (simp split: sum.splits)
qed

lemma getRecords_fst_page:
  assumes ix: "fst (getIndex rt cfg c s) = Inr index"
  shows "fst (getRecords rt cfg c (map_option int L) (map_option int S) s)
           = records_of rt cfg c (page index L S) s"
proof -
  have "loop_slice index
          (case map_option int L of
             None \<Rightarrow> int (length index)
           | Some l \<Rightarrow> if l \<noteq> 0 then (case map_option int S of None \<Rightarrow> 0 | Some k \<Rightarrow> k) + l
                      else int (length index))
          (case map_option int S of None \<Rightarrow> 0 | Some k \<Rightarrow> k)
        = page index L S"
    by (cases L; cases S) (auto simp: loop_slice_def page_def Let_def min_def nat_add_distrib)
  moreover have "0 \<le> (case map_option int S of None \<Rightarrow> 0 | Some k \<Rightarrow> k)"
    by (cases S) auto
  ultimately show ?thesis using getRecords_fst [OF ix, of "map_option int S" "map_option int L"]
    by simp
qed

lemma collect_map_Inr: "collect (map Inr xs) = Inr xs"
  by (induction xs) simp_all

lemma collect_Inr_D: "collect rs = Inr xs \<Longrightarrow> rs = map Inr xs"
  by (induction rs arbitrary: xs) (auto split: sum.splits)

lemma collect_Inr:
  "collect rs = Inr xs \<longleftrightarrow> rs = map Inr xs"
  using collect_map_Inr collect_Inr_D by blast

lemma getRecords_success:
  assumes ix: "fst (getIndex rt cfg c s) = Inr index"
      and s0: "0 \<le> (case skip of None \<Rightarrow> 0 | Some k \<Rightarrow> k)"
      and pg: "loop_slice index
                  (case limit of
                     None \<Rightarrow> int (length index)
                   | Some l \<Rightarrow> if l \<noteq> 0 then (case skip of None \<Rightarrow> 0 | Some k \<Rightarrow> k) + l
                              else int (length index))
                  (case skip of None \<Rightarrow> 0 | Some k \<Rightarrow> k) = es"
      and rs: "records_of rt cfg c es s = Inr rs"
  shows "getRecords rt cfg c limit skip s =
           (Inr rs, s\<lparr>indexCache := (indexCache s)(c \<mapsto> index),
                      warned := warned s @ warnings es rs\<rparr>)"
proof -
  let ?s1 = "s\<lparr>indexCache := (indexCache s)(c \<mapsto> index)\<rparr>"
  let ?start = "case skip of None \<Rightarrow> 0 | Some k \<Rightarrow> k"
  let ?end = "case limit of None \<Rightarrow> int (length index)
                | Some l \<Rightarrow> if l \<noteq> 0 then ?start + l else int (length index)"
  have g: "getIndex rt cfg c s = (Inr index, ?s1)" by (rule getIndex_fst_Inr [OF ix])
  have st: "(case skip of None \<Rightarrow> 0 | Some k \<Rightarrow> if k \<noteq> 0 then k else 0) = ?start"
    by (cases skip) auto
  have "records_of rt cfg c (loop_slice index ?end ?start) ?s1 = Inr rs"
    using rs pg records_of_cong [of ?s1 s rt cfg c es] by simp
  from loop_success [OF s0 this, of "[]"] pg show ?thesis
    by (simp add: getRecords_def g Let_def st)
qed

lemma loop_slice_page:
  "loop_slice index
          (case map_option int L of
             None \<Rightarrow> int (length index)
           | Some l \<Rightarrow> if l \<noteq> 0 then (case map_option int S of None \<Rightarrow> 0 | Some k \<Rightarrow> k) + l
                      else int (length index))
          (case map_option int S of None \<Rightarrow> 0 | Some k \<Rightarrow> k)
        = page index L S"
  by (cases L; cases S) (auto simp: loop_slice_def page_def Let_def min_def nat_add_distrib)

lemma skip_nonneg: "0 \<le> (case map_option int S of None \<Rightarrow> 0 | Some k \<Rightarrow> k)"
  by (cases S) auto

lemma records_of_Inr:
  "records_of rt cfg c es s = Inr rs \<longleftrightarrow>
     length rs = length es \<and>
     (\<forall>k < length es. readRecord rt cfg c (id' (es ! k)) (isBinary (es ! k)) s = Inr (rs ! k))"
  by (auto simp: records_of_def collect_Inr list_eq_iff_nth_eq)

lemma records_of_total:
  "(\<forall>e \<in> set es. \<exists>r. readRecord rt cfg c (id' e) (isBinary e) s = Inr r) \<Longrightarrow>
     \<exists>rs. records_of rt cfg c es s = Inr rs"
  by (induction es) (auto simp: records_of_Cons)

lemma file_missing_null:
  "file_missing cfg c s e \<Longrightarrow> readRecord rt cfg c (id' e) (isBinary e) s = Inr null"
  by (cases "isBinary e") (auto simp: file_missing_def readRecord_def Let_def split: sum.splits)

lemma warnings_mem:
  "length rs = length es \<Longrightarrow> k < length es \<Longrightarrow> falsy (rs ! k) \<Longrightarrow>
     id' (es ! k) \<in> set (warnings es rs)"
proof (induction es rs arbitrary: k rule: warnings.induct)
  case (1 e es r rs)
  then show ?case by (cases k) auto
qed auto

lemma orphaned_index_loaded:
  "fst (getIndex rt demo_config ''users'' orphaned_store) = Inr users_index"
  by (simp add: getIndex_def orphaned_store_def users_store_def)

lemma orphaned_records:
  "records_of (demo_runtime []) demo_config ''users'' users_index orphaned_store
     = Inr [null, Buffer [1, 2, 3]]"
  by (simp add: records_of_def run_defs)

lemma orphaned_missing:
  "file_missing demo_config ''users'' orphaned_store \<lparr>id' = ''r1'', isBinary = False\<rparr>"
  "\<not> file_missing demo_config ''users'' orphaned_store \<lparr>id' = ''r2'', isBinary = True\<rparr>"
  by (simp_all add: file_missing_def run_defs)

lemma orphaned_r2:
  "readRecord (demo_runtime []) demo_config ''users'' ''r2'' True orphaned_store
     = Inr (Buffer [1, 2, 3])"
  by (simp add: run_defs)

text \<open>
  C5. The claim as stated, "for all natural numbers \<open>L\<close> and \<open>S\<close> the call returns
  the records at the positions from \<open>S\<close> up to \<open>S + L\<close>", fails at \<open>L = 0\<close>: the
  code tests \<^verbatim>\<open>limit ? start + limit : index.length\<close>, so a limit of zero counts as no
  limit and the call returns every record from \<open>S\<close> on. On the example store,
  \<^verbatim>\<open>getRecords("users", 0, 0)\<close> returns both records, not none.
\<close>

lemma users_records:
  "records_of (demo_runtime [ann]) demo_config ''users'' users_index users_store
     = Inr [Plain ann, Buffer [1, 2, 3]]"
  by (simp add: records_of_def run_defs)

theorem getRecords_limit_zero_counterexample:
  "fst (getRecords (demo_runtime [ann]) demo_config ''users'' (Some 0) (Some 0) users_store)
     = Inr [Plain ann, Buffer [1, 2, 3]]
   \<and> records_of (demo_runtime [ann]) demo_config ''users'' (page_spec users_index 0 0) users_store
     = Inr []
   \<and> fst (getRecords (demo_runtime [ann]) demo_config ''users'' (Some 0) (Some 0) users_store)
     \<noteq> records_of (demo_runtime [ann]) demo_config ''users'' (page_spec users_index 0 0) users_store"
proof -
  have "fst (getRecords (demo_runtime [ann]) demo_config ''users'' (map_option int (Some 0))
          (map_option int (Some 0)) users_store)
     = records_of (demo_runtime [ann]) demo_config ''users'' (page users_index (Some 0) (Some 0)) users_store"
    by (rule getRecords_fst_page [OF users_index_loaded])
  then have "fst (getRecords (demo_runtime [ann]) demo_config ''users'' (Some 0) (Some 0) users_store)
     = Inr [Plain ann, Buffer [1, 2, 3]]"
    by (simp add: page_def users_records)
  then show ?thesis by (simp add: page_spec_def)
qed

text \<open>
  C5, amended. On a collection whose index loads, \<^verbatim>\<open>getRecords(c, L, S)\<close> returns the
  records of \<open>page index L S\<close>, in the order of the index: for \<open>L > 0\<close> these are
  the entries at the positions from \<open>S\<close> up to \<open>S + L\<close>, cut at the end of the index;
  for \<open>L = 0\<close>, as without a limit, all entries from \<open>S\<close> on; without \<open>skip\<close> they
  start at 0; with \<open>S\<close> at or past the end there are none.
\<close>

theorem getRecords_page:
  assumes ix: "fst (getIndex rt cfg c s) = Inr index"
  shows "fst (getRecords rt cfg c (map_option int L) (map_option int S) s)
           = records_of rt cfg c (page index L S) s
       \<and> (0 < l \<longrightarrow> page index (Some l) (Some k) = page_spec index l k)
       \<and> page index (Some 0) (Some k) = drop k index
       \<and> page index None (Some k) = drop k index
       \<and> page index L None = page index L (Some 0)
       \<and> (length index \<le> k \<longrightarrow> page index L (Some k) = [])"
  using getRecords_fst_page [OF ix, of L S]
  by (auto simp: page_def page_spec_def Let_def split: option.splits)

theorem getRecords_page_witness:
  "fst (getIndex (demo_runtime [ann]) demo_config ''users'' users_store) = Inr users_index
   \<and> fst (getRecords (demo_runtime [ann]) demo_config ''users'' (Some 1) (Some 1) users_store)
       = Inr [Buffer [1, 2, 3]]
   \<and> page users_index (Some 1) (Some 1) = page_spec users_index 1 1
   \<and> page users_index (Some 1) (Some 2) = []"
proof -
  note t = getRecords_page [OF users_index_loaded [of "demo_runtime [ann]"],
    where L = "Some 1" and S = "Some 1" and l = 1 and k = 1]
  note t2 = getRecords_page [OF users_index_loaded [of "demo_runtime [ann]"],
    where L = "Some 1" and S = "Some 1" and l = 1 and k = 2]
  have r: "records_of (demo_runtime [ann]) demo_config ''users'' (page users_index (Some 1) (Some 1))
             users_store = Inr [Buffer [1, 2, 3]]"
    by (simp add: page_def records_of_def run_defs)
  have l: "length users_index \<le> 2" by (simp add: users_index_def)
  have a: "fst (getRecords (demo_runtime [ann]) demo_config ''users'' (Some 1) (Some 1) users_store)
       = Inr [Buffer [1, 2, 3]]"
    using t [THEN conjunct1] r by simp
  have b: "page users_index (Some 1) (Some 1) = page_spec users_index 1 1"
    using t [THEN conjunct2, THEN conjunct1] by simp
  have c: "page users_index (Some 1) (Some 2) = []"
    using t2 l by blast
  from users_index_loaded [of "demo_runtime [ann]"] a b c show ?thesis by blast
qed

text \<open>What \<^verbatim>\<open>getRecords\<close> returns for a page when every file of the page that is
  there can be read and decoded: one element for each entry, in order, the record
  of the entry, and for an entry whose file is missing the \<^verbatim>\<open>null\<close> of
  \<^verbatim>\<open>readRecord\<close>, with a warning.\<close>

lemma getRecords_with_missing_files:
  assumes ix: "fst (getIndex rt cfg c s) = Inr index"
      and ok: "\<forall>e \<in> set (page index L S).
                 \<not> file_missing cfg c s e \<longrightarrow>
                   (\<exists>r. readRecord rt cfg c (id' e) (isBinary e) s = Inr r)"
  shows "\<exists>recs s'. getRecords rt cfg c (map_option int L) (map_option int S) s = (Inr recs, s')
          \<and> length recs = length (page index L S)
          \<and> (\<forall>k < length (page index L S).
                readRecord rt cfg c (id' (page index L S ! k)) (isBinary (page index L S ! k)) s
                  = Inr (recs ! k)
              \<and> (file_missing cfg c s (page index L S ! k) \<longrightarrow>
                    recs ! k = null \<and> id' (page index L S ! k) \<in> set (warned s')))"
proof -
  let ?pg = "page index L S"
  let ?s1 = "s\<lparr>indexCache := (indexCache s)(c \<mapsto> index)\<rparr>"
  have "\<forall>e \<in> set ?pg. \<exists>r. readRecord rt cfg c (id' e) (isBinary e) s = Inr r"
    using ok file_missing_null by blast
  then obtain rs where rs: "records_of rt cfg c ?pg s = Inr rs"
    using records_of_total by blast
  have run: "getRecords rt cfg c (map_option int L) (map_option int S) s
               = (Inr rs, ?s1\<lparr>warned := warned ?s1 @ warnings ?pg rs\<rparr>)"
    using getRecords_success [OF ix skip_nonneg loop_slice_page rs] by simp
  from rs have len: "length rs = length ?pg"
    and nth: "\<forall>k < length ?pg. readRecord rt cfg c (id' (?pg ! k)) (isBinary (?pg ! k)) s = Inr (rs ! k)"
    by (simp_all add: records_of_Inr)
  have miss: "rs ! k = null \<and> id' (?pg ! k) \<in> set (warned (?s1\<lparr>warned := warned ?s1 @ warnings ?pg rs\<rparr>))"
    if k: "k < length ?pg" and m: "file_missing cfg c s (?pg ! k)" for k
  proof -
    from nth k file_missing_null [OF m, of rt] have n: "rs ! k = null" by simp
    then have "falsy (rs ! k)" by simp
    from warnings_mem [OF len k this] n show ?thesis by simp
  qed
  show ?thesis using run len nth miss by blast
qed

text \<open>
  C6. The claim: an index entry of the requested page whose file is missing on disk
  is skipped with a warning, that is left out of the returned array, and the call
  succeeds with exactly the decodable records of the page.
  \<^verbatim>\<open>LocalStore.getRecords\<close> warns that the record was "in index but not found on
  disk" and then pushes the \<^verbatim>\<open>null\<close> all the same: \<^verbatim>\<open>records.push(record)\<close> stands
  after the \<^verbatim>\<open>if\<close>, unguarded, where the oldest store of the repository has
  \<^verbatim>\<open>if (record) records.push(record)\<close>. So the call succeeds, but for a page with
  a missing file the array has an element for every entry, \<^verbatim>\<open>null\<close> at the missing
  one, and is not the list of the decodable records.
\<close>

theorem getRecords_keeps_missing_entries:
  assumes ix: "fst (getIndex rt cfg c s) = Inr index"
      and ok: "\<forall>e \<in> set (page index L S).
                 \<not> file_missing cfg c s e \<longrightarrow>
                   (\<exists>r. readRecord rt cfg c (id' e) (isBinary e) s = Inr r)"
      and k: "k < length (page index L S)"
      and miss: "file_missing cfg c s (page index L S ! k)"
  shows "\<exists>recs s'. getRecords rt cfg c (map_option int L) (map_option int S) s = (Inr recs, s')
          \<and> length recs = length (page index L S)
          \<and> recs ! k = null
          \<and> id' (page index L S ! k) \<in> set (warned s')
          \<and> Inr recs \<noteq> decodable_records rt cfg c (page index L S) s"
proof -
  let ?pg = "page index L S"
  from getRecords_with_missing_files [OF ix ok] obtain recs s' where
    run: "getRecords rt cfg c (map_option int L) (map_option int S) s = (Inr recs, s')"
    and len: "length recs = length ?pg"
    and at: "\<forall>j < length ?pg.
               (file_missing cfg c s (?pg ! j) \<longrightarrow>
                  recs ! j = null \<and> id' (?pg ! j) \<in> set (warned s'))"
    by blast
  from at k miss have n: "recs ! k = null" and w: "id' (?pg ! k) \<in> set (warned s')"
    by simp_all
  have "?pg ! k \<in> set ?pg" using k by simp
  with miss have "length (filter (\<lambda>e. \<not> file_missing cfg c s e) ?pg) < length ?pg"
    by (intro length_filter_less [of "?pg ! k"]) simp_all
  then have "Inr recs \<noteq> decodable_records rt cfg c ?pg s"
    using len by (auto simp: decodable_records_def records_of_Inr dest!: sym [of "Inr recs"])
  with run len n w show ?thesis by blast
qed

text \<open>On the store that lost the file of \<^verbatim>\<open>r1\<close>, \<^verbatim>\<open>getRecords("users")\<close> returns
  \<^verbatim>\<open>[null, <01 02 03>]\<close>; the decodable records are the one \<^verbatim>\<open>Buffer\<close>.\<close>

theorem getRecords_keeps_missing_entries_witness:
  "fst (getIndex (demo_runtime []) demo_config ''users'' orphaned_store) = Inr users_index
   \<and> page users_index None None = users_index
   \<and> file_missing demo_config ''users'' orphaned_store (users_index ! 0)
   \<and> decodable_records (demo_runtime []) demo_config ''users'' users_index orphaned_store
       = Inr [Buffer [1, 2, 3]]
   \<and> fst (getRecords (demo_runtime []) demo_config ''users'' None None orphaned_store)
       = Inr [null, Buffer [1, 2, 3]]
   \<and> (\<exists>recs s'. getRecords (demo_runtime []) demo_config ''users'' None None orphaned_store
                   = (Inr recs, s')
        \<and> length recs = 2 \<and> recs ! 0 = null \<and> ''r1'' \<in> set (warned s')
        \<and> Inr recs \<noteq> decodable_records (demo_runtime []) demo_config ''users'' users_index
                        orphaned_store)"
proof -
  have pg: "page users_index None None = users_index" by (simp add: page_def)
  have ok: "\<forall>e \<in> set (page users_index None None).
              \<not> file_missing demo_config ''users'' orphaned_store e \<longrightarrow>
                (\<exists>r. readRecord (demo_runtime []) demo_config ''users'' (id' e) (isBinary e)
                       orphaned_store = Inr r)"
  proof -
    have "\<forall>e \<in> set users_index.
              \<not> file_missing demo_config ''users'' orphaned_store e \<longrightarrow>
                (\<exists>r. readRecord (demo_runtime []) demo_config ''users'' (id' e) (isBinary e)
                       orphaned_store = Inr r)"
      using orphaned_missing(1) orphaned_r2 by (simp add: users_index_def)
    then show ?thesis by (simp only: pg)
  qed
  have "0 < length users_index" by (simp add: users_index_def)
  then have z: "0 < length (page users_index None None)" by (simp only: pg)
  have m: "file_missing demo_config ''users'' orphaned_store (users_index ! 0)"
    using orphaned_missing by (simp add: users_index_def)
  have m': "file_missing demo_config ''users'' orphaned_store (page users_index None None ! 0)"
    using m by (simp only: pg)
  have i0: "id' (users_index ! 0) = ''r1''" and l2: "length users_index = 2"
    by (simp_all add: users_index_def)
  have d: "decodable_records (demo_runtime []) demo_config ''users'' users_index orphaned_store
     = Inr [Buffer [1, 2, 3]]"
    using orphaned_missing
    by (simp add: decodable_records_def users_index_def) (simp add: records_of_def run_defs)
  have "fst (getRecords (demo_runtime []) demo_config ''users'' (map_option int None)
          (map_option int None) orphaned_store)
     = records_of (demo_runtime []) demo_config ''users'' (page users_index None None) orphaned_store"
    by (rule getRecords_fst_page [OF orphaned_index_loaded])
  then have a: "fst (getRecords (demo_runtime []) demo_config ''users'' None None orphaned_store)
     = Inr [null, Buffer [1, 2, 3]]"
    by (simp add: pg orphaned_records)
  from getRecords_keeps_missing_entries [OF orphaned_index_loaded ok z m', unfolded pg]
  obtain recs s' where
    r: "getRecords (demo_runtime []) demo_config ''users'' (map_option int None)
          (map_option int None) orphaned_store = (Inr recs, s')"
    and f: "length recs = length users_index" "recs ! 0 = null"
       "id' (users_index ! 0) \<in> set (warned s')"
       "Inr recs \<noteq> decodable_records (demo_runtime []) demo_config ''users'' users_index
                      orphaned_store"
    by blast
  from r f i0 l2 have
    "\<exists>recs s'. getRecords (demo_runtime []) demo_config ''users'' None None orphaned_store
                   = (Inr recs, s')
        \<and> length recs = 2 \<and> recs ! 0 = null \<and> ''r1'' \<in> set (warned s')
        \<and> Inr recs \<noteq> decodable_records (demo_runtime []) demo_config ''users'' users_index
                        orphaned_store"
    by auto
  with orphaned_index_loaded [of "demo_runtime []"] pg m d a show ?thesis by blast
qed

section \<open>Updating a record\<close>

lemma updateRecord_start:
  assumes ix: "fst (getIndex rt cfg c s) = Inr index"
      and f: "find (\<lambda>item. id' item = recordId) index = Some entry"
  shows "updateRecord rt cfg c recordId newData b s =
    (let s1 = s\<lparr>mutexes := insert c (mutexes s), indexCache := (indexCache s)(c \<mapsto> index)\<rparr> in
     case readRecord rt cfg c recordId (isBinary entry) s of
       Inl err \<Rightarrow> (Inl err, s1)
     | Inr data \<Rightarrow>
         (case Object_assign rt data newData of
            Inl err \<Rightarrow> (Inl err, s1)
          | Inr data' \<Rightarrow>
              (case writeRecord rt cfg c recordId data' b s1 of
                 (Inl err, s3) \<Rightarrow> (Inl err, s3)
               | (Inr u, s3) \<Rightarrow>
                   (if isBinary entry \<noteq> b then
                      updateIndex rt cfg c (assignIsBinary recordId b index)
                        (s3\<lparr>indexCache := (indexCache s3)(c \<mapsto> assignIsBinary recordId b index)\<rparr>)
                    else (Inr (), s3)))))"
proof -
  let ?s0 = "getMutex c s"
  let ?s1 = "s\<lparr>mutexes := insert c (mutexes s), indexCache := (indexCache s)(c \<mapsto> index)\<rparr>"
  have s1: "?s0\<lparr>indexCache := (indexCache ?s0)(c \<mapsto> index)\<rparr> = ?s1"
    by (simp add: getMutex_def insert_absorb)
  have g: "getIndex rt cfg c ?s0 = (Inr index, ?s1)"
    using getIndex_fst_Inr [of rt cfg c ?s0 index] ix by (simp add: getIndex_getMutex s1)
  have g1: "getIndex rt cfg c ?s1 = (Inr index, ?s1)"
    by (rule getIndex_cached) simp
  have rr: "readRecord rt cfg c recordId (isBinary entry) ?s1
              = readRecord rt cfg c recordId (isBinary entry) s"
    by (rule readRecord_cong) simp_all
  have gr: "getRecord rt cfg c recordId ?s1 = (readRecord rt cfg c recordId (isBinary entry) s, ?s1)"
    by (simp add: getRecord_def g1 f rr)
  show ?thesis
    by (simp add: updateRecord_def g f gr Let_def split: sum.splits prod.splits)
qed

lemma readRecord_class:
  "readRecord rt cfg c r b s = Inr data \<Longrightarrow> data = null \<or> isBuffer data = b"
  by (auto simp: readRecord_def Let_def isBuffer_def split: sum.splits option.splits if_splits)

lemma setProperty_map_of: "map_of (setProperty kvs k v) = (map_of kvs)(k \<mapsto> v)"
  by (induction kvs) auto

lemma ordinarySet_map_of:
  "fst kv \<noteq> ''__proto__'' \<Longrightarrow> map_of (ordinarySet kvs kv) = (map_of kvs)(fst kv \<mapsto> snd kv)"
  by (simp add: ordinarySet_def setProperty_map_of)

lemma merged_map_of:
  "''__proto__'' \<notin> fst ` set newDoc \<Longrightarrow>
     map_of (foldl ordinarySet stored newDoc) = map_of stored ++ map_of (rev newDoc)"
proof (induction newDoc arbitrary: stored)
  case Nil
  then show ?case by simp
next
  case (Cons kv newDoc)
  then have "map_of (foldl ordinarySet (ordinarySet stored kv) newDoc)
               = map_of (ordinarySet stored kv) ++ map_of (rev newDoc)"
    by simp
  also have "map_of (ordinarySet stored kv) = (map_of stored)(fst kv \<mapsto> snd kv)"
    using Cons.prems by (intro ordinarySet_map_of) auto
  finally show ?case
    by (cases kv) (simp add: map_add_upd_left map_add_def fun_eq_iff split: option.splits)
qed

lemma demo_update:
  "fst (updateRecord (demo_runtime [ann, ann30]) demo_config ''users'' ''r1'' (Plain age30) False
          users_store) = Inr ()"
  by (simp add: run_defs value_defs)

lemma demo_update_get:
  "fst (getRecord (demo_runtime [ann, ann30]) demo_config ''users'' ''r1''
          (snd (updateRecord (demo_runtime [ann, ann30]) demo_config ''users'' ''r1'' (Plain age30)
                  False users_store))) = Inr (Plain ann30)"
  by (simp add: run_defs value_defs)

text \<open>With two \<^verbatim>\<open>Buffer\<close>s the assignment copies byte by byte into the stored one
  and keeps its length: updating the bytes 01 02 03 with the one byte 07 leaves
  07 02 03.\<close>

lemma demo_update_buffer:
  "fst (updateRecord (demo_runtime []) demo_config ''users'' ''r2'' (Buffer [7]) True users_store)
     = Inr ()
   \<and> fst (getRecord (demo_runtime []) demo_config ''users'' ''r2''
          (snd (updateRecord (demo_runtime []) demo_config ''users'' ''r2'' (Buffer [7]) True
                  users_store))) = Inr (Buffer [7, 2, 3])"
  by (simp add: run_defs value_defs)

text \<open>
  C2. The claim as stated, "\<^verbatim>\<open>updateRecord\<close> overwrites the record file with
  \<^verbatim>\<open>newPayload\<close>, so that \<^verbatim>\<open>getRecord\<close> returns exactly \<^verbatim>\<open>newPayload\<close>", fails:
  \<^verbatim>\<open>LocalStore.updateRecord\<close> reads the stored record, calls
  \<^verbatim>\<open>Object.assign(data, newData)\<close> and writes the result. On the example store,
  updating \<^verbatim>\<open>r1 = {name: "Ann"}\<close> with \<^verbatim>\<open>{age: 30}\<close> leaves
  \<^verbatim>\<open>{name: "Ann", age: 30}\<close>, not \<^verbatim>\<open>{age: 30}\<close>.
\<close>

theorem updateRecord_overwrite_counterexample:
  "fst (updateRecord (demo_runtime [ann, ann30]) demo_config ''users'' ''r1'' (Plain age30) False
          users_store) = Inr ()
   \<and> fst (getRecord (demo_runtime [ann, ann30]) demo_config ''users'' ''r1''
          (snd (updateRecord (demo_runtime [ann, ann30]) demo_config ''users'' ''r1'' (Plain age30)
                  False users_store))) = Inr (Plain ann30)
   \<and> fst (getRecord (demo_runtime [ann, ann30]) demo_config ''users'' ''r1''
          (snd (updateRecord (demo_runtime [ann, ann30]) demo_config ''users'' ''r1'' (Plain age30)
                  False users_store))) \<noteq> Inr (Plain age30)"
  by (simp add: demo_update demo_update_get) (simp add: ann30_def age30_def)

text \<open>
  C2, amended. For a collection whose index loads and holds \<open>id\<close> as a structured
  record whose file holds the document \<open>stored\<close>, a successful
  \<^verbatim>\<open>updateRecord(c, id, newDoc, false)\<close> with a document \<open>newDoc\<close> writes the merge
  \<^verbatim>\<open>Object.assign(stored, newDoc)\<close>, and an immediately following \<^verbatim>\<open>getRecord(c, id)\<close>
  returns it (the merge being a value the configured format represents): the
  properties of \<open>stored\<close>, overwritten or extended by those of \<open>newDoc\<close>.
\<close>

theorem updateRecord_merges:
  assumes ix: "fst (getIndex rt cfg c s) = Inr index"
      and f: "find (\<lambda>item. id' item = recordId) index = Some entry"
      and nb: "\<not> isBinary entry"
      and old: "readRecord rt cfg c recordId False s = Inr (Plain (JObj stored))"
      and rep: "representable rt cfg (JObj (foldl ordinarySet stored newDoc))"
      and ok: "updateRecord rt cfg c recordId (Plain (JObj newDoc)) False s = (Inr (), s')"
  shows "fst (getRecord rt cfg c recordId s') = Inr (Plain (JObj (foldl ordinarySet stored newDoc)))
       \<and> (''__proto__'' \<notin> fst ` set newDoc \<longrightarrow>
            map_of (foldl ordinarySet stored newDoc) = map_of stored ++ map_of (rev newDoc))"
proof -
  let ?s1 = "s\<lparr>mutexes := insert c (mutexes s), indexCache := (indexCache s)(c \<mapsto> index)\<rparr>"
  let ?m = "Plain (JObj (foldl ordinarySet stored newDoc))"
  let ?p = "getRecordFilePath cfg c recordId False"
  from ok nb old have w: "writeRecord rt cfg c recordId ?m False ?s1 = (Inr (), s')"
    by (simp add: updateRecord_start [OF ix f] Let_def split: prod.splits sum.splits)
  from writeRecord_Inr [OF w] obtain t where
    t: "dumpText rt cfg (JObj (foldl ordinarySet stored newDoc)) = Some t"
    and s': "s' = ?s1\<lparr>files := (files ?s1)(?p \<mapsto> utf8_encode t)\<rparr>"
    and nd: "?p \<notin> denied ?s1" and ndir: "\<not> dir_exists ?s1 ?p"
    by auto
  have rd: "fs_readFile ?p s' = Inr (utf8_encode t)"
    using nd ndir by (simp add: s' fs_readFile_def dir_exists_def)
  have "readRecord rt cfg c recordId False s' = Inr ?m"
    using rd t rep by (simp add: readRecord_def Let_def representable_def)
  then have "fst (getRecord rt cfg c recordId s') = Inr ?m"
    using f nb by (simp add: getRecord_def getIndex_def s')
  then show ?thesis by (simp add: merged_map_of)
qed

theorem updateRecord_merges_witness:
  "fst (getIndex (demo_runtime [ann, ann30]) demo_config ''users'' users_store) = Inr users_index
   \<and> find (\<lambda>item. id' item = ''r1'') users_index = Some \<lparr>id' = ''r1'', isBinary = False\<rparr>
   \<and> readRecord (demo_runtime [ann, ann30]) demo_config ''users'' ''r1'' False users_store
       = Inr (Plain (JObj [(''name'', JStr ''Ann'')]))
   \<and> foldl ordinarySet [(''name'', JStr ''Ann'')] [(''age'', JNum 30)]
       = [(''name'', JStr ''Ann''), (''age'', JNum 30)]
   \<and> representable (demo_runtime [ann, ann30]) demo_config
        (JObj [(''name'', JStr ''Ann''), (''age'', JNum 30)])
   \<and> fst (updateRecord (demo_runtime [ann, ann30]) demo_config ''users'' ''r1''
            (Plain (JObj [(''age'', JNum 30)])) False users_store) = Inr ()
   \<and> fst (getRecord (demo_runtime [ann, ann30]) demo_config ''users'' ''r1''
            (snd (updateRecord (demo_runtime [ann, ann30]) demo_config ''users'' ''r1''
                    (Plain (JObj [(''age'', JNum 30)])) False users_store)))
       = Inr (Plain (JObj [(''name'', JStr ''Ann''), (''age'', JNum 30)]))"
proof -
  let ?rt = "demo_runtime [ann, ann30]"
  have f: "find (\<lambda>item. id' item = ''r1'') users_index = Some \<lparr>id' = ''r1'', isBinary = False\<rparr>"
    by (simp add: users_index_def)
  have nb: "\<not> isBinary \<lparr>id' = ''r1'', isBinary = False\<rparr>" by simp
  have old: "readRecord ?rt demo_config ''users'' ''r1'' False users_store
               = Inr (Plain (JObj [(''name'', JStr ''Ann'')]))"
    by (simp add: run_defs)
  have m: "foldl ordinarySet [(''name'', JStr ''Ann'')] [(''age'', JNum 30)]
             = [(''name'', JStr ''Ann''), (''age'', JNum 30)]"
    by (simp add: ordinarySet_def)
  have rep: "representable ?rt demo_config (JObj [(''name'', JStr ''Ann''), (''age'', JNum 30)])"
    by (simp add: representable_def run_defs value_defs)
  have rep': "representable ?rt demo_config
                (JObj (foldl ordinarySet [(''name'', JStr ''Ann'')] [(''age'', JNum 30)]))"
    using rep by (simp only: m)
  have u: "fst (updateRecord ?rt demo_config ''users'' ''r1'' (Plain (JObj [(''age'', JNum 30)])) False
                 users_store) = Inr ()"
    using demo_update by (simp add: age30_def)
  obtain s' where ok: "updateRecord ?rt demo_config ''users'' ''r1''
                         (Plain (JObj [(''age'', JNum 30)])) False users_store = (Inr (), s')"
    using u
    by (cases "updateRecord ?rt demo_config ''users'' ''r1'' (Plain (JObj [(''age'', JNum 30)])) False
                 users_store") simp
  note t = updateRecord_merges [OF users_index_loaded f nb old rep' ok, THEN conjunct1,
    unfolded m]
  show ?thesis using users_index_loaded [of ?rt] f old m rep u t by (simp add: ok)
qed

lemma demo_update_flag:
  "fst (updateRecord (demo_runtime []) demo_config ''users'' ''r2'' (Plain age30) False users_store)
     = Inl (ExpectedObject ''r2'' ''users'')"
  by (simp add: run_defs value_defs)

lemma demo_update_flag2:
  "fst (updateRecord (demo_runtime [ann]) demo_config ''users'' ''r1'' (Buffer [7]) True users_store)
     = Inl (ExpectedBuffer ''r1'' ''users'')"
  by (simp add: run_defs value_defs)

lemma sibling_update_flag:
  "fst (DataFileRepo_updateRecord (demo_runtime []) demo_config ''users'' ''r2'' (Plain age30) False
          users_store) = Inr ()
   \<and> indexCache (snd (DataFileRepo_updateRecord (demo_runtime []) demo_config ''users'' ''r2''
          (Plain age30) False users_store)) ''users''
       = Some [\<lparr>id' = ''r1'', isBinary = False\<rparr>, \<lparr>id' = ''r2'', isBinary = False\<rparr>]"
  by (simp add: DataFileRepo_updateRecord_def run_defs value_defs)

text \<open>
  C7. The claim: the representation of a record can be changed in place,
  \<^verbatim>\<open>updateRecord(c, id, p, not b)\<close> with a payload valid for the new flag succeeds,
  writes the file in the new representation and persists the new flag.
  In \<^verbatim>\<open>LocalStore\<close> it never succeeds. The value handed to \<^verbatim>\<open>writeRecord\<close> is the
  stored record after \<^verbatim>\<open>Object.assign\<close>, which is a \<^verbatim>\<open>Buffer\<close> exactly when the stored
  one is, so it never fits the new flag: every such call ends with an error, a
  Validation error when the stored record could be read and assigned to, and leaves
  the files and the index as they were. The lines that rewrite the flag are never
  reached. The payload of the theorem has no own property \<^verbatim>\<open>__proto__\<close> (with one
  the program can replace the prototype of the stored \<^verbatim>\<open>Buffer\<close>, which the model
  does not follow), and the error is one of the program, not the model stopping.
\<close>

theorem updateRecord_flag_change_fails:
  assumes ix: "fst (getIndex rt cfg c s) = Inr index"
      and f: "find (\<lambda>item. id' item = recordId) index = Some entry"
      and ch: "isBinary entry \<noteq> b"
      and np: "map_of (ownProperties newData) ''__proto__'' = None"
  shows "\<exists>e. updateRecord rt cfg c recordId newData b s =
               (Inl e, s\<lparr>mutexes := insert c (mutexes s),
                         indexCache := (indexCache s)(c \<mapsto> index)\<rparr>)
            \<and> e \<noteq> PrototypeReplaced
            \<and> (\<forall>data data'. readRecord rt cfg c recordId (isBinary entry) s = Inr data
                   \<and> Object_assign rt data newData = Inr data' \<longrightarrow> is_validation e)"
proof (cases "readRecord rt cfg c recordId (isBinary entry) s")
  case (Inl err)
  with readRecord_error [OF Inl] show ?thesis
    by (auto simp: updateRecord_start [OF ix f] Let_def)
next
  case (Inr data)
  show ?thesis
  proof (cases "Object_assign rt data newData")
    case (Inl err)
    with np Object_assign_PrototypeReplaced [of rt data newData]
    have "err \<noteq> PrototypeReplaced" by auto
    with Inl Inr show ?thesis by (simp add: updateRecord_start [OF ix f] Let_def)
  next
    case a: (Inr data')
    from readRecord_class [OF Inr] a have "isBuffer data = isBinary entry"
      by auto
    with Object_assign_isBuffer [OF a] ch have "isBuffer data' \<noteq> b" by simp
    then have "\<exists>e. writeRecord rt cfg c recordId data' b
                 (s\<lparr>mutexes := insert c (mutexes s), indexCache := (indexCache s)(c \<mapsto> index)\<rparr>)
               = (Inl e, s\<lparr>mutexes := insert c (mutexes s), indexCache := (indexCache s)(c \<mapsto> index)\<rparr>)
               \<and> is_validation e"
      by (auto simp: writeRecord_def Let_def isBuffer_def split: payload.splits)
    with Inr a show ?thesis by (auto simp: updateRecord_start [OF ix f] Let_def)
  qed
qed

theorem updateRecord_flag_change_fails_witness:
  "fst (getIndex (demo_runtime []) demo_config ''users'' users_store) = Inr users_index
   \<and> find (\<lambda>item. id' item = ''r2'') users_index = Some \<lparr>id' = ''r2'', isBinary = True\<rparr>
   \<and> readRecord (demo_runtime []) demo_config ''users'' ''r2'' True users_store = Inr (Buffer [1, 2, 3])
   \<and> Object_assign (demo_runtime []) (Buffer [1, 2, 3]) (Plain age30) = Inr (Buffer [1, 2, 3])
   \<and> fst (updateRecord (demo_runtime []) demo_config ''users'' ''r2'' (Plain age30) False users_store)
       = Inl (ExpectedObject ''r2'' ''users'')
   \<and> snd (updateRecord (demo_runtime []) demo_config ''users'' ''r2'' (Plain age30) False users_store)
       = users_store"
proof -
  have f: "find (\<lambda>item. id' item = ''r2'') users_index = Some \<lparr>id' = ''r2'', isBinary = True\<rparr>"
    by (simp add: users_index_def)
  have ch: "isBinary \<lparr>id' = ''r2'', isBinary = True\<rparr> \<noteq> False" by simp
  have r: "readRecord (demo_runtime []) demo_config ''users'' ''r2'' True users_store
             = Inr (Buffer [1, 2, 3])"
    by (simp add: run_defs)
  have a: "Object_assign (demo_runtime []) (Buffer [1, 2, 3]) (Plain age30) = Inr (Buffer [1, 2, 3])"
    by (simp add: age30_def value_defs)
  have np: "map_of (ownProperties (Plain age30)) ''__proto__'' = None"
    by (simp add: age30_def)
  have s: "users_store\<lparr>mutexes := insert ''users'' (mutexes users_store),
             indexCache := (indexCache users_store)(''users'' \<mapsto> users_index)\<rparr> = users_store"
    by (simp add: users_store_def)
  from updateRecord_flag_change_fails [OF users_index_loaded [of "demo_runtime []"] f ch np]
  obtain e where
    u: "updateRecord (demo_runtime []) demo_config ''users'' ''r2'' (Plain age30) False users_store
          = (Inl e, users_store)"
    by (auto simp: s)
  from u demo_update_flag have "e = ExpectedObject ''r2'' ''users''" by simp
  with u f r a users_index_loaded [of "demo_runtime []"] show ?thesis by simp
qed

section \<open>The ids of inserted records\<close>

lemma DataFileRepo_insertRecord_eq:
  "DataFileRepo_insertRecord rt cfg c d b now s = insertRecord rt cfg c d b (dec_string now) s"
  by (simp add: DataFileRepo_insertRecord_def insertRecord_def Let_def
        split: prod.splits sum.splits)

lemma demo_first_insert:
  "DataFileRepo_insertRecord (demo_runtime [ann, bob]) demo_config ''users'' (Plain ann) False
     1700000000000 empty_users_store
   = (Inr ''1700000000000'',
      empty_users_store\<lparr>
        mutexes := {''users''},
        indexCache := [''users'' \<mapsto> [\<lparr>id' = ''1700000000000'', isBinary = False\<rparr>]],
        files := [[''storage'', ''users'', ''index.json''] \<mapsto>
                    utf8_encode (render (indexJson [\<lparr>id' = ''1700000000000'', isBinary = False\<rparr>])),
                  [''storage'', ''users'', ''1700000000000.json''] \<mapsto> utf8_encode (render ann)]\<rparr>)"
  by (simp add: DataFileRepo_insertRecord_eq run_defs value_defs fun_upd_twist)

lemma demo_first_insert':
  "DataFileRepo_insertRecord (demo_runtime [ann, bob]) demo_config ''users'' (Plain ann) False
     1700000000000 empty_users_store = (Inr ''1700000000000'', after_first_insert)"
  by (simp add: demo_first_insert after_first_insert_def)

lemma demo_second_insert:
  "fst (DataFileRepo_insertRecord (demo_runtime [ann, bob]) demo_config ''users'' (Plain bob) False
     1700000000000 after_first_insert) = Inr ''1700000000000''"
  by (simp add: DataFileRepo_insertRecord_eq after_first_insert_def run_defs value_defs)

lemma demo_second_get:
  "fst (getRecord (demo_runtime [ann, bob]) demo_config ''users'' ''1700000000000''
     (snd (DataFileRepo_insertRecord (demo_runtime [ann, bob]) demo_config ''users'' (Plain bob) False
        1700000000000 after_first_insert))) = Inr (Plain bob)"
  by (simp add: DataFileRepo_insertRecord_eq after_first_insert_def run_defs value_defs)

text \<open>\<^verbatim>\<open>LocalStore.insertRecord\<close> keeps the ids of an index distinct as long as
  \<^verbatim>\<open>randomUUID()\<close> returns an id that is not in the index yet, and each successful
  call makes the index one entry longer.\<close>

lemma insertRecord_keeps_ids_distinct:
  assumes ix: "fst (getIndex rt cfg c s) = Inr index"
      and ok: "insertRecord rt cfg c d b recordId s = (Inr r, s')"
      and fresh: "recordId \<notin> id' ` set index"
      and dist: "distinct (map id' index)"
  shows "\<exists>index'. indexCache s' c = Some index' \<and> length index' = Suc (length index)
           \<and> distinct (map id' index')"
  using insertRecord_Inr [OF ix ok] fresh dist by auto

text \<open>
  C8. The claim: the ids that successive successful \<^verbatim>\<open>insertRecord\<close> calls on a
  collection return are pairwise distinct, and every id of an index is unique.
  \<^verbatim>\<open>DataFileRepo.insertRecord\<close> takes \<^verbatim>\<open>Date.now().toString()\<close> as the id and checks
  nothing: two calls for which the clock reads the same millisecond return the
  same id, and the index then holds that id twice.
\<close>

theorem DataFileRepo_insertRecord_same_millisecond:
  assumes ix: "fst (getIndex rt cfg c s) = Inr index"
      and i1: "DataFileRepo_insertRecord rt cfg c d1 b1 now s = (Inr r1, s1)"
      and i2: "DataFileRepo_insertRecord rt cfg c d2 b2 now s1 = (Inr r2, s2)"
  shows "r1 = r2
       \<and> indexCache s2 c = Some (index @ [\<lparr>id' = r1, isBinary = b1\<rparr>, \<lparr>id' = r2, isBinary = b2\<rparr>])
       \<and> \<not> distinct (map id' (index @ [\<lparr>id' = r1, isBinary = b1\<rparr>, \<lparr>id' = r2, isBinary = b2\<rparr>]))"
proof -
  let ?ix1 = "index @ [\<lparr>id' = dec_string now, isBinary = b1\<rparr>]"
  from insertRecord_Inr [OF ix i1 [unfolded DataFileRepo_insertRecord_eq]]
  have r1: "r1 = dec_string now" and c1: "indexCache s1 c = Some ?ix1"
    by auto
  from c1 have ix1: "fst (getIndex rt cfg c s1) = Inr ?ix1"
    by (simp add: getIndex_cached)
  from insertRecord_Inr [OF ix1 i2 [unfolded DataFileRepo_insertRecord_eq]]
  have r2: "r2 = dec_string now"
    and c2: "indexCache s2 c = Some (?ix1 @ [\<lparr>id' = dec_string now, isBinary = b2\<rparr>])"
    by auto
  show ?thesis using r1 r2 c2 by simp
qed

text \<open>On the example: the second insert in the same millisecond returns the id of
  the first, and \<^verbatim>\<open>getRecord\<close> under that id returns the second payload; the first
  one is overwritten.\<close>

theorem DataFileRepo_insertRecord_same_millisecond_witness:
  "fst (getIndex (demo_runtime [ann, bob]) demo_config ''users'' empty_users_store) = Inr []
   \<and> DataFileRepo_insertRecord (demo_runtime [ann, bob]) demo_config ''users'' (Plain ann) False
        1700000000000 empty_users_store = (Inr ''1700000000000'', after_first_insert)
   \<and> fst (DataFileRepo_insertRecord (demo_runtime [ann, bob]) demo_config ''users'' (Plain bob) False
        1700000000000 after_first_insert) = Inr ''1700000000000''
   \<and> indexCache (snd (DataFileRepo_insertRecord (demo_runtime [ann, bob]) demo_config ''users''
        (Plain bob) False 1700000000000 after_first_insert)) ''users''
       = Some [\<lparr>id' = ''1700000000000'', isBinary = False\<rparr>,
               \<lparr>id' = ''1700000000000'', isBinary = False\<rparr>]
   \<and> fst (getRecord (demo_runtime [ann, bob]) demo_config ''users'' ''1700000000000''
        (snd (DataFileRepo_insertRecord (demo_runtime [ann, bob]) demo_config ''users'' (Plain bob)
           False 1700000000000 after_first_insert))) = Inr (Plain bob)"
proof -
  let ?rt = "demo_runtime [ann, bob]"
  have ix: "fst (getIndex ?rt demo_config ''users'' empty_users_store) = Inr []"
    by (simp add: getIndex_def empty_users_store_def)
  obtain s2 where i2: "DataFileRepo_insertRecord ?rt demo_config ''users'' (Plain bob) False
        1700000000000 after_first_insert = (Inr ''1700000000000'', s2)"
    using demo_second_insert
    by (cases "DataFileRepo_insertRecord ?rt demo_config ''users'' (Plain bob) False
        1700000000000 after_first_insert") simp
  note t = DataFileRepo_insertRecord_same_millisecond [OF ix demo_first_insert' i2]
  show ?thesis using ix demo_first_insert' demo_second_insert demo_second_get t
    by (simp add: i2)
qed

end
